theory Spec2Isabelle
  imports Main "HOL-Library.Word"
begin

unbundle bit_operations_syntax

section \<open>Paths and strings (the \<open>os.path\<close> and \<open>str\<close> functions the module calls)\<close>

text \<open>
  \<open>os.path.join(a, b)\<close> for two components: an absolute \<open>b\<close> replaces \<open>a\<close>; otherwise
  \<open>b\<close> is appended, with a separator unless \<open>a\<close> is empty or already ends in one.
\<close>

definition path_join :: "string \<Rightarrow> string \<Rightarrow> string" where
  "path_join a b =
     (if b \<noteq> [] \<and> hd b = CHR ''/'' then b
      else if a = [] \<or> last a = CHR ''/'' then a @ b
      else a @ ''/'' @ b)"

text \<open>
  \<open>os.path.dirname(p)\<close>: everything up to and including the last separator, with trailing
  separators stripped unless the head consists of separators only.
\<close>

definition dirname :: "string \<Rightarrow> string" where
  "dirname p =
     (let head = rev (dropWhile (\<lambda>c. c \<noteq> CHR ''/'') (rev p))
      in if head \<noteq> [] \<and> head \<noteq> replicate (length head) CHR ''/''
         then rev (dropWhile (\<lambda>c. c = CHR ''/'') (rev head))
         else head)"

text \<open>\<open>b.split(":")\<close>: cut at every colon; \<open>n\<close> colons give \<open>n + 1\<close> parts.\<close>

fun split_colon :: "string \<Rightarrow> string list" where
  "split_colon [] = [[]]"
| "split_colon (c # cs) =
     (if c = CHR '':'' then [] # split_colon cs
      else (case split_colon cs of
              [] \<Rightarrow> [[c]]
            | p # ps \<Rightarrow> (c # p) # ps))"

section \<open>The host: external operations and their outcomes\<close>

text \<open>An API endpoint object: its \<open>endpoint\<close> name and its \<open>socket_address\<close>.\<close>

record api =
  endpoint :: string
  socket_address :: string

text \<open>
  Every call that leaves the module is an action on the host:
  \<open>os.makedirs(p, exist_ok=True)\<close>, the directory creation inside
  \<open>tempfile.TemporaryDirectory\<close> and its cleanup, \<open>mount -t tmpfs -o nosuid none p\<close>,
  \<open>umount --lazy p\<close>, \<open>os.mknod(path, mode, device)\<close>, \<open>__enter__\<close> and \<open>__exit__\<close> of
  an API endpoint, and \<open>subprocess.Popen(cmd)\<close>.
\<close>

datatype action =
    Makedirs string
  | Mkdtemp string
  | Rmtree string
  | Mount string
  | Umount string
  | Mknod string int "int \<times> int"
  | ApiEnter api
  | ApiExit api
  | Popen "string list"

text \<open>
  The exceptions the module can raise: \<open>Failed a\<close> is whatever the external operation
  \<open>a\<close> raises when it fails (\<open>OSError\<close>, \<open>CalledProcessError\<close> of a \<open>check=True\<close>
  subprocess, an endpoint's own error); \<open>NoActiveContext\<close> is
  \<open>RuntimeError("No active context")\<close>; the others are Python's built-in exceptions.
\<close>

datatype error =
    Failed action
  | NoActiveContext
  | AttributeError
  | TypeError
  | UnicodeDecodeError
  | FileNotFoundError string

type_synonym byte = "8 word"
type_synonym str = "nat list"

text \<open>
  A spawned child as the module sees it: \<open>reads i\<close> is what the \<open>i\<close>-th
  \<open>os.read(fd, 32768)\<close> returns (\<open>[]\<close> is end of stream), \<open>remainder\<close> is what
  \<open>proc.communicate()\<close> returns for stdout afterwards, \<open>exit_status\<close> is the return code.
\<close>

record process =
  reads :: "nat \<Rightarrow> byte list"
  remainder :: "byte list"
  exit_status :: int

text \<open>
  The host. \<open>fails\<close> says which external operations fail; \<open>tmp_name n\<close> is the random
  part of the name \<open>tempfile\<close> picks at its \<open>n\<close>-th use. \<open>dirs\<close> are the paths for which
  \<open>os.path.isdir\<close> holds, \<open>links\<close> those for which \<open>os.path.islink\<close> holds,
  \<open>listdir\<close> is \<open>os.listdir\<close> (\<open>None\<close> where it raises), \<open>mounted\<close> the mount points of
  tmpfs instances, \<open>nodes\<close> the device nodes visible by path with mode and device,
  \<open>entered\<close> the API endpoints whose context is active, \<open>module_origin\<close> the
  \<open>origin\<close> of \<open>importlib.util.find_spec("osbuild")\<close>, \<open>child cmd\<close> the process that
  \<open>cmd\<close> starts, \<open>umask\<close> the file mode creation mask of the process, and \<open>trace\<close>
  every external operation attempted so far, in order.
\<close>

record world =
  fails :: "action \<Rightarrow> bool"
  tmp_name :: "nat \<Rightarrow> string"
  tmp_used :: nat
  dirs :: "string list"
  links :: "string list"
  listdir :: "string \<Rightarrow> string list option"
  mounted :: "string list"
  nodes :: "(string \<times> int \<times> (int \<times> int)) list"
  entered :: "api list"
  module_origin :: "string option"
  child :: "string list \<Rightarrow> process"
  umask :: int
  trace :: "action list"

text \<open>\<open>dir_prefix d\<close> is \<open>os.path.join(d, "")\<close>: the prefix of every path below \<open>d\<close>.\<close>

definition dir_prefix :: "string \<Rightarrow> string" where
  "dir_prefix d = path_join d []"

definition inside :: "string \<Rightarrow> string \<Rightarrow> bool" where
  "inside d p = (take (length (dir_prefix d)) p = dir_prefix d \<and> length (dir_prefix d) < length p)"

text \<open>
  The mode a node gets when it is created with mode \<open>m\<close> under the mask \<open>u\<close>:
  \<open>m & ~umask\<close>, where only the nine permission bits of the mask count (511 is 0o777).
\<close>

definition masked :: "int \<Rightarrow> int \<Rightarrow> int" where
  "masked u m = m AND NOT (u AND 511)"

text \<open>
  What a successful operation changes. Mounting a tmpfs on \<open>p\<close> hides whatever was
  below \<open>p\<close>; unmounting or removing \<open>p\<close> makes what was below it disappear;
  \<open>os.mknod\<close> creates the node with the requested mode less the bits of the mask.
\<close>

fun effect :: "action \<Rightarrow> world \<Rightarrow> world" where
  "effect (Makedirs p) w = w\<lparr>dirs := List.insert p (dirs w)\<rparr>"
| "effect (Mkdtemp p) w = w\<lparr>dirs := List.insert p (dirs w), tmp_used := Suc (tmp_used w)\<rparr>"
| "effect (Rmtree p) w =
     w\<lparr>dirs := removeAll p (dirs w), nodes := filter (\<lambda>n. \<not> inside p (fst n)) (nodes w)\<rparr>"
| "effect (Mount p) w =
     w\<lparr>mounted := p # mounted w, nodes := filter (\<lambda>n. \<not> inside p (fst n)) (nodes w)\<rparr>"
| "effect (Umount p) w =
     w\<lparr>mounted := remove1 p (mounted w), nodes := filter (\<lambda>n. \<not> inside p (fst n)) (nodes w)\<rparr>"
| "effect (Mknod p m d) w = w\<lparr>nodes := nodes w @ [(p, masked (umask w) m, d)]\<rparr>"
| "effect (ApiEnter a) w = w\<lparr>entered := a # entered w\<rparr>"
| "effect (ApiExit a) w = w\<lparr>entered := remove1 a (entered w)\<rparr>"
| "effect (Popen cmd) w = w"

text \<open>Attempting an operation: it is recorded, and either raises or takes effect.\<close>

definition perform :: "action \<Rightarrow> world \<Rightarrow> error option \<times> world" where
  "perform a w =
     (let w' = w\<lparr>trace := trace w @ [a]\<rparr>
      in if fails w a then (Some (Failed a), w') else (None, effect a w'))"

text \<open>The entries of directory \<open>d\<close> among the device nodes: name, mode, device.\<close>

definition dir_entries :: "world \<Rightarrow> string \<Rightarrow> (string \<times> int \<times> (int \<times> int)) list" where
  "dir_entries w d =
     map (\<lambda>n. (drop (length (dir_prefix d)) (fst n), snd n))
       (filter (\<lambda>n. inside d (fst n) \<and> CHR ''/'' \<notin> set (drop (length (dir_prefix d)) (fst n)))
          (nodes w))"

section \<open>\<open>BuildRoot\<close>\<close>

text \<open>
  The object's attributes. \<open>exitstack\<close> is \<open>self._exitstack\<close>: \<open>None\<close>, or an
  \<open>ExitStack\<close> given by its registered release actions, the most recent first. An
  \<open>ExitStack\<close> object is truthy even when it holds nothing, so \<open>if self._exitstack\<close>
  tests for \<open>None\<close> only.
\<close>

record buildroot =
  exitstack :: "action list option"
  rootdir :: string
  rundir :: string
  vardir :: string
  libdir :: string
  runner :: string
  apis :: "api list"
  dev :: "string option"
  var :: "string option"
  mount_boot :: bool

text \<open>\<open>__init__(root, runner, libdir, var, rundir)\<close>; \<open>rundir\<close> defaults to \<open>/run/osbuild\<close>.\<close>

definition init :: "string \<Rightarrow> string \<Rightarrow> string \<Rightarrow> string \<Rightarrow> string \<Rightarrow> buildroot" where
  "init root runner' libdir' var' rundir' =
     \<lparr>exitstack = None, rootdir = root, rundir = rundir', vardir = var', libdir = libdir',
      runner = runner', apis = [], dev = None, var = None, mount_boot = True\<rparr>"

text \<open>The test \<open>if self._exitstack\<close> of \<open>run\<close> and \<open>register_api\<close>.\<close>

definition is_open :: "buildroot \<Rightarrow> bool" where
  "is_open s = (exitstack s \<noteq> None)"

subsection \<open>\<open>ExitStack\<close>\<close>

text \<open>
  \<open>ExitStack.__exit__\<close> and \<open>close()\<close>: the callbacks run last-in first-out, every one
  of them even when an earlier one raises; the exception of the callback that raised
  last is the one that leaves. None of the callbacks registered here suppresses an
  exception. The result is that exception, if any, and the host afterwards.
\<close>

fun unwind :: "action list \<Rightarrow> world \<Rightarrow> error option \<times> world" where
  "unwind [] w = (None, w)"
| "unwind (r # rs) w =
     (case perform r w of
        (e, w') \<Rightarrow>
          (case unwind rs w' of
             (None, w'') \<Rightarrow> (e, w'')
           | (Some e', w'') \<Rightarrow> (Some e', w'')))"

text \<open>
  The release actions an object holds, and \<open>callback(f)\<close> (also the registration half
  of \<open>enter_context\<close>).
\<close>

definition held :: "buildroot \<Rightarrow> action list" where
  "held s = (case exitstack s of None \<Rightarrow> [] | Some st \<Rightarrow> st)"

definition push :: "action \<Rightarrow> buildroot \<Rightarrow> buildroot" where
  "push r s = s\<lparr>exitstack := Some (r # held s)\<rparr>"

subsection \<open>\<open>__enter__\<close>\<close>

type_synonym ctx = "world \<times> buildroot"
type_synonym stmt = "ctx \<Rightarrow> error option \<times> ctx"

text \<open>Statements in sequence: the first exception ends the block.\<close>

fun seq :: "stmt list \<Rightarrow> stmt" where
  "seq [] c = (None, c)"
| "seq (f # fs) c =
     (case f c of
        (Some e, c') \<Rightarrow> (Some e, c')
      | (None, c') \<Rightarrow> seq fs c')"

text \<open>\<open>os.makedirs(p, exist_ok=True)\<close>\<close>

definition makedirs :: "string \<Rightarrow> stmt" where
  "makedirs p c = (case perform (Makedirs p) (fst c) of (r, w') \<Rightarrow> (r, (w', snd c)))"

text \<open>
  \<open>tempfile.TemporaryDirectory(prefix=prefix, dir=d)\<close> creates the directory at once;
  \<open>enter_context\<close> then registers its removal and returns its name.
\<close>

definition tmp_path :: "string \<Rightarrow> string \<Rightarrow> world \<Rightarrow> string" where
  "tmp_path prefix d w = path_join d (prefix @ tmp_name w (tmp_used w))"

definition tempdir_dev :: stmt where
  "tempdir_dev c =
     (let p = tmp_path ''osbuild-dev-'' (rundir (snd c)) (fst c)
      in case perform (Mkdtemp p) (fst c) of
           (Some e, w') \<Rightarrow> (Some e, (w', snd c))
         | (None, w') \<Rightarrow> (None, (w', (push (Rmtree p) (snd c))\<lparr>dev := Some p\<rparr>)))"

definition tempdir_var :: stmt where
  "tempdir_var c =
     (let p = tmp_path ''osbuild-var-'' (vardir (snd c)) (fst c)
      in case perform (Mkdtemp p) (fst c) of
           (Some e, w') \<Rightarrow> (Some e, (w', snd c))
         | (None, w') \<Rightarrow> (None, (w', (push (Rmtree p) (snd c))\<lparr>var := Some p\<rparr>)))"

text \<open>
  \<open>subprocess.run(["mount", ..., self.dev], check=True)\<close>, then the callback that
  unmounts. A \<open>None\<close> in an argument list is a \<open>TypeError\<close>.
\<close>

definition mount_dev :: stmt where
  "mount_dev c =
     (case dev (snd c) of
        None \<Rightarrow> (Some TypeError, c)
      | Some d \<Rightarrow>
          (case perform (Mount d) (fst c) of
             (Some e, w') \<Rightarrow> (Some e, (w', snd c))
           | (None, w') \<Rightarrow> (None, (w', push (Umount d) (snd c)))))"

definition S_IFCHR :: int where
  "S_IFCHR = 8192"

definition S_IMODE :: "int \<Rightarrow> int" where
  "S_IMODE mode = mode AND 4095"

text \<open>\<open>os.makedev\<close> packs the two numbers into one device number; kept as the pair.\<close>

definition makedev :: "int \<Rightarrow> int \<Rightarrow> int \<times> int" where
  "makedev major minor = (major, minor)"

definition mknod :: "string \<Rightarrow> string \<Rightarrow> int \<Rightarrow> int \<Rightarrow> int \<Rightarrow> world \<Rightarrow> error option \<times> world" where
  "mknod path name mode major minor w =
     perform (Mknod (path_join path name) (S_IMODE mode OR S_IFCHR) (makedev major minor)) w"

text \<open>\<open>self._mknod(self.dev, name, mode, major, minor)\<close>\<close>

definition mknod_dev :: "string \<Rightarrow> int \<Rightarrow> int \<Rightarrow> int \<Rightarrow> stmt" where
  "mknod_dev name mode major minor c =
     (case dev (snd c) of
        None \<Rightarrow> (Some TypeError, c)
      | Some d \<Rightarrow> (case mknod d name mode major minor (fst c) of (r, w') \<Rightarrow> (r, (w', snd c))))"

text \<open>\<open>self._exitstack.enter_context(api)\<close>\<close>

definition enter_api :: "api \<Rightarrow> stmt" where
  "enter_api a c =
     (case perform (ApiEnter a) (fst c) of
        (Some e, w') \<Rightarrow> (Some e, (w', snd c))
      | (None, w') \<Rightarrow> (None, (w', push (ApiExit a) (snd c))))"

text \<open>The body of the \<open>with\<close> block, up to the loop over the registered endpoints
  (438 is 0o666).\<close>

definition enter_body :: "buildroot \<Rightarrow> stmt list" where
  "enter_body s =
     [makedirs (rundir s),
      tempdir_dev,
      makedirs (vardir s),
      tempdir_var,
      mount_dev,
      mknod_dev ''full'' 438 1 7,
      mknod_dev ''null'' 438 1 3,
      mknod_dev ''random'' 438 1 8,
      mknod_dev ''urandom'' 438 1 9,
      mknod_dev ''tty'' 438 5 0,
      mknod_dev ''zero'' 438 1 5]
     @ map enter_api (apis s)"

text \<open>
  Storing a new value in \<open>self._exitstack\<close> drops the stack that was there, and with it
  the last reference to the \<open>TemporaryDirectory\<close> objects it holds. None of its
  callbacks runs, but each of these objects is finalized: its directory is removed, in
  the order of registration, and an error in doing so is ignored. \<open>rmtrees st\<close> are the
  directories of the \<open>TemporaryDirectory\<close> objects on a stack, the latest first.
\<close>

fun rmtree_target :: "action \<Rightarrow> string list" where
  "rmtree_target (Rmtree p) = [p]"
| "rmtree_target _ = []"

definition rmtrees :: "action list \<Rightarrow> string list" where
  "rmtrees st = concat (map rmtree_target st)"

fun finalize :: "string list \<Rightarrow> world \<Rightarrow> world" where
  "finalize [] w = w"
| "finalize (p # ps) w = finalize ps (snd (perform (Rmtree p) w))"

definition drop_stack :: "buildroot \<Rightarrow> world \<Rightarrow> world" where
  "drop_stack s w = finalize (rev (rmtrees (held s))) w"

text \<open>
  \<open>__enter__\<close>. A fresh \<open>ExitStack\<close> is stored in \<open>self._exitstack\<close> before anything
  else, which drops the stack of an object that is open. When the body completes,
  \<open>pop_all()\<close> moves the callbacks to a new stack, which is stored, and leaving the
  \<open>with\<close> block closes the emptied one. When a statement raises, leaving the block
  unwinds the stack; \<open>self._exitstack\<close> still refers to it.
\<close>

definition enter :: "world \<Rightarrow> buildroot \<Rightarrow> (error + unit) \<times> world \<times> buildroot" where
  "enter w s =
     (case seq (enter_body s) (drop_stack s w, s\<lparr>exitstack := Some []\<rparr>) of
        (None, w', s') \<Rightarrow> (Inr (), w', s')
      | (Some e, w', s') \<Rightarrow>
          (case unwind (held s') w' of
             (None, w'') \<Rightarrow> (Inl e, w'', s'\<lparr>exitstack := Some []\<rparr>)
           | (Some e', w'') \<Rightarrow> (Inl e', w'', s'\<lparr>exitstack := Some []\<rparr>)))"

subsection \<open>\<open>__exit__\<close>\<close>

text \<open>
  \<open>self._exitstack.close()\<close>, then \<open>self._exitstack = None\<close>. On \<open>None\<close> the attribute
  lookup of \<open>close\<close> raises; when a callback raises, the assignment is not reached and
  the emptied stack stays.
\<close>

definition exit_ctx :: "world \<Rightarrow> buildroot \<Rightarrow> (error + unit) \<times> world \<times> buildroot" where
  "exit_ctx w s =
     (case exitstack s of
        None \<Rightarrow> (Inl AttributeError, w, s)
      | Some st \<Rightarrow>
          (case unwind st w of
             (None, w') \<Rightarrow> (Inr (), w', s\<lparr>exitstack := None\<rparr>)
           | (Some e, w') \<Rightarrow> (Inl e, w', s\<lparr>exitstack := Some []\<rparr>)))"

subsection \<open>\<open>register_api\<close>\<close>

definition register_api :: "api \<Rightarrow> world \<Rightarrow> buildroot \<Rightarrow> (error + unit) \<times> world \<times> buildroot" where
  "register_api a w s =
     (let s1 = s\<lparr>apis := apis s @ [a]\<rparr>
      in if is_open s1
         then (case enter_api a (w, s1) of
                 (None, w', s') \<Rightarrow> (Inr (), w', s')
               | (Some e, w', s') \<Rightarrow> (Inl e, w', s'))
         else (Inr (), w, s1))"

subsection \<open>\<open>run\<close>: the bind list and the command line\<close>

definition isdir :: "world \<Rightarrow> string \<Rightarrow> bool" where
  "isdir w p = (p \<in> set (dirs w))"

definition islink :: "world \<Rightarrow> string \<Rightarrow> bool" where
  "islink w p = (p \<in> set (links w))"

text \<open>\<open>imports = ["usr"]\<close>, and \<open>imports.insert(0, "boot")\<close> when \<open>mount_boot\<close> is set.\<close>

definition import_dirs :: "buildroot \<Rightarrow> string list" where
  "import_dirs s = (if mount_boot s then ''boot'' # [''usr''] else [''usr''])"

text \<open>
  The elements of \<open>mounts\<close> and \<open>cmd\<close> are strings, except that \<open>self.dev\<close> and
  \<open>self.var\<close> may be \<open>None\<close>. The loop over \<open>imports\<close>, with \<open>mounts\<close> as it grows:
\<close>

fun import_mounts :: "world \<Rightarrow> string \<Rightarrow> string list \<Rightarrow> string option list \<Rightarrow> string option list" where
  "import_mounts w root [] mounts = mounts"
| "import_mounts w root (p # ps) mounts =
     (let source = path_join root p
      in import_mounts w root ps
           (if isdir w source \<and> \<not> islink w source
            then mounts @ map Some [''--ro-bind'', source, path_join ''/'' p]
            else mounts))"

text \<open>
  The bindings that do not depend on the request: the imports, the \<open>/usr\<close> symlinks,
  \<open>/dev\<close>, the temporary and data file systems, the API file systems, the
  \<open>mke2fs.conf\<close> workaround and the library directory, with the host's \<open>osbuild\<close>
  module on top when \<open>os.listdir\<close> finds the one in \<open>libdir\<close> empty.
\<close>

definition system_mounts :: "world \<Rightarrow> buildroot \<Rightarrow> error + string option list" where
  "system_mounts w s =
     (let mounts = import_mounts w (rootdir s) (import_dirs s) [];
          mounts = mounts @ map Some [''--symlink'', ''usr/lib'', ''/lib''];
          mounts = mounts @ map Some [''--symlink'', ''usr/lib64'', ''/lib64''];
          mounts = mounts @ map Some [''--symlink'', ''usr/bin'', ''/bin''];
          mounts = mounts @ map Some [''--symlink'', ''usr/sbin'', ''/sbin''];
          mounts = mounts @ [Some ''--dev-bind'', dev s, Some ''/dev''];
          mounts = mounts @ map Some [''--tmpfs'', ''/dev/shm''];
          mounts = mounts @ map Some [''--dir'', ''/etc''];
          mounts = mounts @ map Some [''--tmpfs'', ''/run''];
          mounts = mounts @ map Some [''--tmpfs'', ''/tmp''];
          mounts = mounts @ [Some ''--bind'', var s, Some ''/var''];
          mounts = mounts @ map Some [''--proc'', ''/proc''];
          mounts = mounts @ map Some [''--ro-bind'', ''/sys'', ''/sys''];
          mounts = mounts @ map Some [''--ro-bind-try'', ''/sys/fs/selinux'', ''/sys/fs/selinux''];
          mounts = mounts @ map Some [''--ro-bind-try'',
                                      path_join (rootdir s) ''etc/mke2fs.conf'',
                                      ''/etc/mke2fs.conf''];
          mounts = mounts @ map Some [''--ro-bind'', libdir s, ''/run/osbuild/lib'']
      in case listdir w (path_join (libdir s) ''osbuild'') of
           None \<Rightarrow> Inl (FileNotFoundError (path_join (libdir s) ''osbuild''))
         | Some (x # xs) \<Rightarrow> Inr mounts
         | Some [] \<Rightarrow>
             (case module_origin w of
                None \<Rightarrow> Inl AttributeError
              | Some modorigin \<Rightarrow>
                  Inr (mounts @ map Some [''--ro-bind'', dirname modorigin,
                                          ''/run/osbuild/lib/osbuild''])))"

text \<open>\<open>binds or []\<close>\<close>

definition or_empty :: "'a list option \<Rightarrow> 'a list" where
  "or_empty xs = (case xs of None \<Rightarrow> [] | Some l \<Rightarrow> l)"

text \<open>\<open>for b in ...: mounts += [flag] + b.split(":")\<close>\<close>

fun bind_mounts :: "string \<Rightarrow> string list \<Rightarrow> string option list \<Rightarrow> string option list" where
  "bind_mounts flag [] mounts = mounts"
| "bind_mounts flag (b # bs) mounts =
     bind_mounts flag bs (mounts @ map Some ([flag] @ split_colon b))"

text \<open>\<open>for api in self._apis: mounts += ["--bind", api.socket_address, api_path]\<close>\<close>

fun api_mounts :: "api list \<Rightarrow> string option list \<Rightarrow> string option list" where
  "api_mounts [] mounts = mounts"
| "api_mounts (a # as) mounts =
     (let api_path = ''/run/osbuild/api/'' @ endpoint a
      in api_mounts as (mounts @ map Some [''--bind'', socket_address a, api_path]))"

text \<open>The whole of \<open>mounts\<close>.\<close>

definition mounts_of :: "world \<Rightarrow> buildroot \<Rightarrow> string list option \<Rightarrow> string list option
    \<Rightarrow> error + string option list" where
  "mounts_of w s binds readonly_binds =
     (case system_mounts w s of
        Inl e \<Rightarrow> Inl e
      | Inr mounts \<Rightarrow>
          (let mounts = bind_mounts ''--bind'' (or_empty binds) mounts;
               mounts = bind_mounts ''--ro-bind'' (or_empty readonly_binds) mounts;
               mounts = mounts @ map Some [''--dir'', ''/run/osbuild/api'']
           in Inr (api_mounts (apis s) mounts)))"

definition bwrap :: "string list" where
  "bwrap =
     [''bwrap'',
      ''--cap-add'', ''CAP_MAC_ADMIN'',
      ''--chdir'', ''/'',
      ''--die-with-parent'',
      ''--new-session'',
      ''--setenv'', ''PATH'', ''/usr/sbin:/usr/bin'',
      ''--setenv'', ''PYTHONPATH'', ''/run/osbuild/lib'',
      ''--setenv'', ''PYTHONUNBUFFERED'', ''1'',
      ''--unshare-ipc'',
      ''--unshare-pid'',
      ''--unshare-net'']"

definition command :: "world \<Rightarrow> buildroot \<Rightarrow> string list \<Rightarrow> string list option \<Rightarrow> string list option
    \<Rightarrow> error + string option list" where
  "command w s argv binds readonly_binds =
     (case mounts_of w s binds readonly_binds of
        Inl e \<Rightarrow> Inl e
      | Inr mounts \<Rightarrow>
          Inr (map Some bwrap @ mounts
               @ map Some ([''--'', ''/run/osbuild/lib/runners/'' @ runner s] @ argv)))"

subsection \<open>\<open>run\<close>: streaming the output\<close>

text \<open>
  \<open>buf.decode("utf-8")\<close>: strict UTF-8. A lead byte fixes the length of the sequence
  and the range of the byte after it (no overlong forms, no surrogates, nothing above
  U+10FFFF); \<open>None\<close> is \<open>UnicodeDecodeError\<close>.
\<close>

definition second_ok :: "byte \<Rightarrow> byte \<Rightarrow> bool" where
  "second_ok b c =
     ((if b = 0xE0 then 0xA0 else if b = 0xF0 then 0x90 else 0x80) \<le> c \<and>
      c \<le> (if b = 0xED then 0x9F else if b = 0xF4 then 0x8F else 0xBF))"

definition is_cont :: "byte \<Rightarrow> bool" where
  "is_cont c = (0x80 \<le> c \<and> c \<le> 0xBF)"

definition low6 :: "byte \<Rightarrow> nat" where
  "low6 c = unat c - 0x80"

text \<open>The first character of \<open>b # bs\<close> and the bytes after it.\<close>

definition decode_one :: "byte \<Rightarrow> byte list \<Rightarrow> (nat \<times> byte list) option" where
  "decode_one b bs =
     (if b < 0x80 then Some (unat b, bs)
      else if 0xC2 \<le> b \<and> b \<le> 0xDF then
        (case bs of
           c1 # r \<Rightarrow>
             if second_ok b c1 then Some ((unat b - 0xC0) * 64 + low6 c1, r) else None
         | _ \<Rightarrow> None)
      else if 0xE0 \<le> b \<and> b \<le> 0xEF then
        (case bs of
           c1 # c2 # r \<Rightarrow>
             if second_ok b c1 \<and> is_cont c2
             then Some (((unat b - 0xE0) * 64 + low6 c1) * 64 + low6 c2, r)
             else None
         | _ \<Rightarrow> None)
      else if 0xF0 \<le> b \<and> b \<le> 0xF4 then
        (case bs of
           c1 # c2 # c3 # r \<Rightarrow>
             if second_ok b c1 \<and> is_cont c2 \<and> is_cont c3
             then Some ((((unat b - 0xF0) * 64 + low6 c1) * 64 + low6 c2) * 64 + low6 c3, r)
             else None
         | _ \<Rightarrow> None)
      else None)"

function utf8_decode :: "byte list \<Rightarrow> str option" where
  "utf8_decode [] = Some []"
| "utf8_decode (b # bs) =
     (case decode_one b bs of
        None \<Rightarrow> None
      | Some (cp, r) \<Rightarrow> map_option ((#) cp) (utf8_decode r))"
  by pat_completeness auto
termination
  by (relation "measure length") (auto simp: decode_one_def split: if_splits list.splits)

text \<open>The texts \<open>monitor.log\<close> has been called with, in order.\<close>

type_synonym monitor = "str list"

text \<open>
  The loop \<open>while True: buf = os.read(fd, 32768) ...\<close>, from the \<open>i\<close>-th read on. It
  ends at the first empty read, and it does not end if there is none: the result is
  \<open>None\<close> then. A chunk that does not decode raises; what the monitor has received by
  then stays received.
\<close>

partial_function (option) read_loop ::
    "(nat \<Rightarrow> byte list) \<Rightarrow> nat \<Rightarrow> str \<Rightarrow> monitor \<Rightarrow> ((error + str) \<times> monitor) option" where
  "read_loop rd i data mon =
     (let buf = rd i
      in if buf = [] then Some (Inr data, mon)
         else (case utf8_decode buf of
                 None \<Rightarrow> Some (Inl UnicodeDecodeError, mon)
               | Some txt \<Rightarrow> read_loop rd (Suc i) (data @ txt) (mon @ [txt])))"

text \<open>\<open>CompletedBuild\<close> and its properties; \<open>output_text\<close> is its \<open>output\<close> attribute.\<close>

record completed_build =
  process :: process
  output_text :: str




text \<open>
  From \<open>data = io.StringIO()\<close> to the \<open>return\<close>: the loop, then \<open>communicate()\<close>,
  whose bytes are decoded, logged and appended.
\<close>

definition stream_output :: "process \<Rightarrow> monitor \<Rightarrow> ((error + completed_build) \<times> monitor) option" where
  "stream_output proc mon =
     (case read_loop (reads proc) 0 [] mon of
        None \<Rightarrow> None
      | Some (Inl e, mon') \<Rightarrow> Some (Inl e, mon')
      | Some (Inr data, mon') \<Rightarrow>
          (case utf8_decode (remainder proc) of
             None \<Rightarrow> Some (Inl UnicodeDecodeError, mon')
           | Some txt \<Rightarrow> Some (Inr \<lparr>process = proc, output_text = data @ txt\<rparr>, mon' @ [txt])))"

text \<open>
  \<open>run(argv, monitor, binds, readonly_binds)\<close>. \<open>Popen\<close> raises \<open>TypeError\<close> for a
  command with a \<open>None\<close> in it, before anything is started. The result is \<open>None\<close> when
  the call does not return; otherwise the value or exception, the monitor and the host.
\<close>

definition run :: "world \<Rightarrow> buildroot \<Rightarrow> string list \<Rightarrow> monitor \<Rightarrow> string list option
    \<Rightarrow> string list option \<Rightarrow> ((error + completed_build) \<times> monitor \<times> world) option" where
  "run w s argv mon binds readonly_binds =
     (if \<not> is_open s then Some (Inl NoActiveContext, mon, w)
      else case command w s argv binds readonly_binds of
             Inl e \<Rightarrow> Some (Inl e, mon, w)
           | Inr cmd \<Rightarrow>
               (case those cmd of
                  None \<Rightarrow> Some (Inl TypeError, mon, w)
                | Some args \<Rightarrow>
                    (case perform (Popen args) w of
                       (Some e, w') \<Rightarrow> Some (Inl e, mon, w')
                     | (None, w') \<Rightarrow>
                         (case stream_output (child w args) mon of
                            None \<Rightarrow> None
                          | Some (r, mon') \<Rightarrow> Some (r, mon', w')))))"

section \<open>Notions used to state the properties\<close>

text \<open>
  The release action that an acquisition registers, and \<open>releases w tr\<close>: the release
  actions owed after the operations \<open>tr\<close> were attempted on host \<open>w\<close>, the latest
  acquisition first. Operations that failed acquire nothing.
\<close>

fun release_of :: "action \<Rightarrow> action list" where
  "release_of (Mkdtemp p) = [Rmtree p]"
| "release_of (Mount p) = [Umount p]"
| "release_of (ApiEnter a) = [ApiExit a]"
| "release_of _ = []"

definition releases :: "world \<Rightarrow> action list \<Rightarrow> action list" where
  "releases w tr = rev (concat (map release_of (filter (\<lambda>a. \<not> fails w a) tr)))"

fun is_release :: "action \<Rightarrow> bool" where
  "is_release (Rmtree p) = True"
| "is_release (Umount p) = True"
| "is_release (ApiExit a) = True"
| "is_release _ = False"

text \<open>The mount points and endpoints that a list of release actions names.\<close>

fun umount_target :: "action \<Rightarrow> string list" where
  "umount_target (Umount p) = [p]"
| "umount_target _ = []"

fun exit_target :: "action \<Rightarrow> api list" where
  "exit_target (ApiExit a) = [a]"
| "exit_target _ = []"

definition umounts :: "action list \<Rightarrow> string list" where
  "umounts st = concat (map umount_target st)"

definition exits :: "action list \<Rightarrow> api list" where
  "exits st = concat (map exit_target st)"

text \<open>
  A statement is \<open>tracked\<close> when what it pushes on the exit stack is exactly what is
  owed for what it attempted, and it leaves the host's failure behaviour alone.
\<close>

definition tracked :: "stmt \<Rightarrow> bool" where
  "tracked f =
     (\<forall>c. \<exists>tr. trace (fst (snd (f c))) = trace (fst c) @ tr \<and>
              held (snd (snd (f c))) = releases (fst c) tr @ held (snd c) \<and>
              fails (fst (snd (f c))) = fails (fst c))"

text \<open>
  A context is \<open>balanced\<close> over a base (directories \<open>D\<close>, mount points \<open>m0\<close>, entered
  endpoints \<open>e0\<close>) when the host differs from the base by what the exit stack will
  undo; a statement \<open>keeps\<close> the balance when it preserves it.
\<close>

definition balanced :: "string set \<Rightarrow> string list \<Rightarrow> api list \<Rightarrow> ctx \<Rightarrow> bool" where
  "balanced D m0 e0 c =
     (mounted (fst c) = umounts (held (snd c)) @ m0 \<and>
      entered (fst c) = exits (held (snd c)) @ e0 \<and>
      set (dirs (fst c)) \<subseteq> D \<union> set (rmtrees (held (snd c))))"

definition keeps :: "string set \<Rightarrow> string list \<Rightarrow> api list \<Rightarrow> stmt \<Rightarrow> bool" where
  "keeps D m0 e0 f = (\<forall>c. balanced D m0 e0 c \<longrightarrow> balanced D m0 e0 (snd (f c)))"

text \<open>
  Two hosts \<open>agree\<close> when they fail on the same operations and pick the same temporary
  names; a statement is \<open>oblivious\<close> when on such hosts it raises the same, leaves the
  same object and keeps the hosts agreeing.
\<close>

definition agree :: "world \<Rightarrow> world \<Rightarrow> bool" where
  "agree w w' = (fails w = fails w' \<and> tmp_name w = tmp_name w' \<and> tmp_used w = tmp_used w')"

definition oblivious :: "stmt \<Rightarrow> bool" where
  "oblivious f =
     (\<forall>w w' s. agree w w' \<longrightarrow>
        fst (f (w, s)) = fst (f (w', s)) \<and>
        snd (snd (f (w, s))) = snd (snd (f (w', s))) \<and>
        agree (fst (snd (f (w, s)))) (fst (snd (f (w', s)))))"

text \<open>
  The six device nodes, name and device, and their entries in a directory when they
  were created under the mask \<open>u\<close>: name, mode and device. 8630 is 0o20666, the mode
  \<open>__enter__\<close> asks for: a character device (\<open>S_IFCHR\<close>) with permission bits 0o666.
\<close>

definition node_table :: "(string \<times> (int \<times> int)) list" where
  "node_table =
     [(''full'', (1, 7)),
      (''null'', (1, 3)),
      (''random'', (1, 8)),
      (''urandom'', (1, 9)),
      (''tty'', (5, 0)),
      (''zero'', (1, 5))]"

definition device_nodes :: "int \<Rightarrow> (string \<times> int \<times> (int \<times> int)) list" where
  "device_nodes u = map (\<lambda>n. (fst n, masked u 8630, snd n)) node_table"

section \<open>Concrete hosts and objects\<close>

text \<open>
  A host on which nothing fails and nothing exists yet, with the usual mask 0o022 (18),
  a fresh object, the two after \<open>__enter__\<close>, a host on which creating the \<open>tty\<close> node
  fails, a host whose mask is 0, and an endpoint.
\<close>

definition silent :: process where
  "silent = \<lparr>reads = (\<lambda>i. []), remainder = [], exit_status = 0\<rparr>"

definition host0 :: world where
  "host0 =
     \<lparr>fails = (\<lambda>a. False), tmp_name = (\<lambda>n. replicate (Suc n) CHR ''t''), tmp_used = 0,
      dirs = [], links = [], listdir = (\<lambda>p. None), mounted = [], nodes = [], entered = [],
      module_origin = None, child = (\<lambda>cmd. silent), umask = 18, trace = []\<rparr>"

definition root0 :: buildroot where
  "root0 = init ''/tree'' ''org.osbuild.linux'' ''/lib'' ''/var/tmp'' ''/run/osbuild''"

definition host1 :: world where
  "host1 = fst (snd (enter host0 root0))"

definition root1 :: buildroot where
  "root1 = snd (snd (enter host0 root0))"

definition host_nodev :: world where
  "host_nodev = host0\<lparr>fails := (\<lambda>a. a = Mknod ''/run/osbuild/osbuild-dev-t/tty'' 8630 (5, 0))\<rparr>"

definition host_plain :: world where
  "host_plain = host0\<lparr>umask := 0\<rparr>"

definition api0 :: api where
  "api0 = \<lparr>endpoint = ''remoteloop'', socket_address = ''/tmp/api/remoteloop.sock''\<rparr>"








section \<open>Lemmas about the host and the exit stack\<close>

lemmas stmt_defs = makedirs_def tempdir_dev_def tempdir_var_def mount_dev_def mknod_dev_def
  mknod_def enter_api_def perform_def push_def held_def tmp_path_def path_join_def
  S_IMODE_def S_IFCHR_def makedev_def inside_def dir_prefix_def masked_def drop_stack_def
  rmtrees_def

lemma fails_effect [simp]: "fails (effect a w) = fails w"
  by (cases a) simp_all

lemma trace_effect [simp]: "trace (effect a w) = trace w"
  by (cases a) simp_all

lemma umask_effect [simp]: "umask (effect a w) = umask w"
  by (cases a) simp_all

lemma tmp_name_effect [simp]: "tmp_name (effect a w) = tmp_name w"
  by (cases a) simp_all

lemma umask_perform [simp]: "umask (snd (perform a w)) = umask w"
  by (simp add: perform_def Let_def)

lemma fails_perform [simp]: "fails (snd (perform a w)) = fails w"
  by (simp add: perform_def Let_def)

lemma trace_perform [simp]: "trace (snd (perform a w)) = trace w @ [a]"
  by (simp add: perform_def Let_def)

lemma fst_perform: "fst (perform a w) = (if fails w a then Some (Failed a) else None)"
  by (simp add: perform_def Let_def)

lemma perform_ok: "\<not> fails w r \<Longrightarrow> snd (perform r w) = effect r (w\<lparr>trace := trace w @ [r]\<rparr>)"
  by (simp add: perform_def Let_def)

lemma releases_append: "releases w (xs @ ys) = releases w ys @ releases w xs"
  by (simp add: releases_def)

lemma releases_Nil [simp]: "releases w [] = []"
  by (simp add: releases_def)

lemma releases_single:
  "releases w [a] = (if fails w a then [] else rev (release_of a))"
  by (simp add: releases_def)

lemma releases_cong: "fails w' = fails w \<Longrightarrow> releases w' tr = releases w tr"
  by (simp add: releases_def)

lemma is_release_releases: "list_all is_release (releases w tr)"
proof -
  have "list_all is_release (release_of a)" for a
    by (cases a) simp_all
  then show ?thesis
    by (auto simp: releases_def list_all_iff)
qed

lemma held_push [simp]: "held (push r s) = r # held s"
  by (simp add: push_def held_def)

lemma held_dev_update [simp]: "held (s\<lparr>dev := d\<rparr>) = held s"
  by (simp add: held_def)

lemma held_var_update [simp]: "held (s\<lparr>var := d\<rparr>) = held s"
  by (simp add: held_def)

subsection \<open>Dropping a stack\<close>

lemma finalize_trace: "trace (finalize ps w) = trace w @ map Rmtree ps"
  by (induction ps arbitrary: w) simp_all

lemma finalize_fails [simp]: "fails (finalize ps w) = fails w"
  by (induction ps arbitrary: w) simp_all

lemma finalize_umask [simp]: "umask (finalize ps w) = umask w"
  by (induction ps arbitrary: w) simp_all

lemma rmtree_keeps:
  "mounted (snd (perform (Rmtree p) w)) = mounted w \<and>
   entered (snd (perform (Rmtree p) w)) = entered w \<and>
   tmp_used (snd (perform (Rmtree p) w)) = tmp_used w \<and>
   tmp_name (snd (perform (Rmtree p) w)) = tmp_name w \<and>
   set (dirs (snd (perform (Rmtree p) w))) \<subseteq> set (dirs w)"
  by (auto simp: perform_def Let_def)

lemma finalize_keeps:
  "mounted (finalize ps w) = mounted w \<and> entered (finalize ps w) = entered w \<and>
   tmp_used (finalize ps w) = tmp_used w \<and> tmp_name (finalize ps w) = tmp_name w \<and>
   set (dirs (finalize ps w)) \<subseteq> set (dirs w)"
proof (induction ps arbitrary: w)
  case Nil
  show ?case by simp
next
  case (Cons p ps)
  from Cons [of "snd (perform (Rmtree p) w)"] rmtree_keeps [of p w] show ?case
    by auto
qed

lemma agree_finalize: "agree (finalize ps w) w"
  by (simp add: agree_def finalize_keeps)

lemma releases_rmtrees: "releases w (map Rmtree ps @ tr) = releases w tr"
proof -
  have "concat (map release_of (filter (\<lambda>a. \<not> fails w a) (map Rmtree ps))) = []"
    by (induction ps) simp_all
  then show ?thesis
    by (simp add: releases_def)
qed

lemma drop_stack_closed [simp]: "drop_stack (s\<lparr>exitstack := None\<rparr>) w = w"
  by (simp add: drop_stack_def held_def rmtrees_def)

subsection \<open>Every statement of \<open>__enter__\<close> is oblivious\<close>

lemma obliviousD:
  "oblivious f \<Longrightarrow> agree w w' \<Longrightarrow>
   fst (f (w, s)) = fst (f (w', s)) \<and> snd (snd (f (w, s))) = snd (snd (f (w', s))) \<and>
   agree (fst (snd (f (w, s)))) (fst (snd (f (w', s))))"
  unfolding oblivious_def by blast

lemma tmp_used_perform:
  "tmp_used (snd (perform a w)) =
     (if fails w a then tmp_used w else tmp_used (effect a (w\<lparr>trace := trace w @ [a]\<rparr>)))"
  by (simp add: perform_def Let_def)

lemma oblivious_makedirs: "oblivious (makedirs p)"
  by (auto simp: oblivious_def agree_def makedirs_def perform_def Let_def)

lemma oblivious_tempdir_dev: "oblivious tempdir_dev"
  by (auto simp: oblivious_def agree_def tempdir_dev_def tmp_path_def perform_def Let_def)

lemma oblivious_tempdir_var: "oblivious tempdir_var"
  by (auto simp: oblivious_def agree_def tempdir_var_def tmp_path_def perform_def Let_def)

lemma oblivious_mount_dev: "oblivious mount_dev"
  by (auto simp: oblivious_def agree_def mount_dev_def perform_def Let_def split: option.splits)

lemma oblivious_mknod_dev: "oblivious (mknod_dev name mode major minor)"
  by (auto simp: oblivious_def agree_def mknod_dev_def mknod_def perform_def Let_def
      split: option.splits)

lemma oblivious_enter_api: "oblivious (enter_api a)"
  by (auto simp: oblivious_def agree_def enter_api_def perform_def Let_def)

lemma oblivious_seq: "list_all oblivious fs \<Longrightarrow> oblivious (seq fs)"
proof (induction fs)
  case Nil
  show ?case by (simp add: oblivious_def)
next
  case (Cons f fs)
  then have f: "oblivious f" and fs: "oblivious (seq fs)"
    by simp_all
  show ?case
    unfolding oblivious_def
  proof (intro allI impI)
    fix w w' :: world and s :: buildroot
    assume a: "agree w w'"
    obtain r w1 s1 where 1: "f (w, s) = (r, w1, s1)"
      by (cases "f (w, s)") auto
    obtain r' w1' s1' where 2: "f (w', s) = (r', w1', s1')"
      by (cases "f (w', s)") auto
    from obliviousD [OF f a, of s] 1 2 have eq: "r' = r" "s1' = s1" and a1: "agree w1 w1'"
      by simp_all
    from obliviousD [OF fs a1, of s1] 1 2 eq
    show "fst (seq (f # fs) (w, s)) = fst (seq (f # fs) (w', s)) \<and>
          snd (snd (seq (f # fs) (w, s))) = snd (snd (seq (f # fs) (w', s))) \<and>
          agree (fst (snd (seq (f # fs) (w, s)))) (fst (snd (seq (f # fs) (w', s))))"
      using a1 by (cases r) simp_all
  qed
qed

lemma oblivious_enter_body: "list_all oblivious (enter_body s)"
  by (simp add: enter_body_def oblivious_makedirs oblivious_tempdir_dev oblivious_tempdir_var
      oblivious_mount_dev oblivious_mknod_dev oblivious_enter_api list_all_iff)

lemma enter_body_same_error:
  "fst (seq (enter_body s) (drop_stack s' w, s0)) = fst (seq (enter_body s) (w, s0))"
proof -
  have "agree (drop_stack s' w) w"
    by (simp add: drop_stack_def agree_finalize)
  from obliviousD [OF oblivious_seq [OF oblivious_enter_body] this] show ?thesis
    by blast
qed

subsection \<open>Every statement of \<open>__enter__\<close> is tracked\<close>

lemma tracked_makedirs: "tracked (makedirs p)"
  unfolding tracked_def
proof
  fix c :: ctx
  show "\<exists>tr. trace (fst (snd (makedirs p c))) = trace (fst c) @ tr \<and>
              held (snd (snd (makedirs p c))) = releases (fst c) tr @ held (snd c) \<and>
              fails (fst (snd (makedirs p c))) = fails (fst c)"
    by (rule exI [of _ "[Makedirs p]"])
       (simp add: makedirs_def perform_def Let_def releases_single)
qed

lemma tracked_tempdir_dev: "tracked tempdir_dev"
  unfolding tracked_def
proof
  fix c :: ctx
  let ?p = "tmp_path ''osbuild-dev-'' (rundir (snd c)) (fst c)"
  show "\<exists>tr. trace (fst (snd (tempdir_dev c))) = trace (fst c) @ tr \<and>
              held (snd (snd (tempdir_dev c))) = releases (fst c) tr @ held (snd c) \<and>
              fails (fst (snd (tempdir_dev c))) = fails (fst c)"
    by (rule exI [of _ "[Mkdtemp ?p]"])
       (simp add: tempdir_dev_def perform_def Let_def releases_single)
qed

lemma tracked_tempdir_var: "tracked tempdir_var"
  unfolding tracked_def
proof
  fix c :: ctx
  let ?p = "tmp_path ''osbuild-var-'' (vardir (snd c)) (fst c)"
  show "\<exists>tr. trace (fst (snd (tempdir_var c))) = trace (fst c) @ tr \<and>
              held (snd (snd (tempdir_var c))) = releases (fst c) tr @ held (snd c) \<and>
              fails (fst (snd (tempdir_var c))) = fails (fst c)"
    by (rule exI [of _ "[Mkdtemp ?p]"])
       (simp add: tempdir_var_def perform_def Let_def releases_single)
qed

lemma tracked_mount_dev: "tracked mount_dev"
  unfolding tracked_def
proof
  fix c :: ctx
  show "\<exists>tr. trace (fst (snd (mount_dev c))) = trace (fst c) @ tr \<and>
              held (snd (snd (mount_dev c))) = releases (fst c) tr @ held (snd c) \<and>
              fails (fst (snd (mount_dev c))) = fails (fst c)"
  proof (cases "dev (snd c)")
    case None
    then show ?thesis
      by (intro exI [of _ "[]"]) (simp add: mount_dev_def)
  next
    case (Some d)
    then show ?thesis
      by (intro exI [of _ "[Mount d]"])
         (simp add: mount_dev_def perform_def Let_def releases_single)
  qed
qed

lemma tracked_mknod_dev: "tracked (mknod_dev name mode major minor)"
  unfolding tracked_def
proof
  fix c :: ctx
  show "\<exists>tr. trace (fst (snd (mknod_dev name mode major minor c))) = trace (fst c) @ tr \<and>
              held (snd (snd (mknod_dev name mode major minor c))) =
                releases (fst c) tr @ held (snd c) \<and>
              fails (fst (snd (mknod_dev name mode major minor c))) = fails (fst c)"
  proof (cases "dev (snd c)")
    case None
    then show ?thesis
      by (intro exI [of _ "[]"]) (simp add: mknod_dev_def)
  next
    case (Some d)
    then show ?thesis
      by (intro exI [of _ "[Mknod (path_join d name) (S_IMODE mode OR S_IFCHR)
                              (makedev major minor)]"])
         (simp add: mknod_dev_def mknod_def perform_def Let_def releases_single)
  qed
qed

lemma tracked_enter_api: "tracked (enter_api a)"
  unfolding tracked_def
proof
  fix c :: ctx
  show "\<exists>tr. trace (fst (snd (enter_api a c))) = trace (fst c) @ tr \<and>
              held (snd (snd (enter_api a c))) = releases (fst c) tr @ held (snd c) \<and>
              fails (fst (snd (enter_api a c))) = fails (fst c)"
    by (rule exI [of _ "[ApiEnter a]"])
       (simp add: enter_api_def perform_def Let_def releases_single)
qed

lemma tracked_seq: "list_all tracked fs \<Longrightarrow> tracked (seq fs)"
proof (induction fs)
  case Nil
  show ?case
    unfolding tracked_def
    by (intro allI exI [of _ "[]"]) simp
next
  case (Cons f fs)
  then have f: "tracked f" and fs: "tracked (seq fs)"
    by simp_all
  show ?case
    unfolding tracked_def
  proof
    fix c :: ctx
    obtain r c1 where fc: "f c = (r, c1)"
      by (cases "f c")
    from f obtain tr1 where
      t1: "trace (fst (snd (f c))) = trace (fst c) @ tr1"
        "held (snd (snd (f c))) = releases (fst c) tr1 @ held (snd c)"
        "fails (fst (snd (f c))) = fails (fst c)"
      unfolding tracked_def by blast
    show "\<exists>tr. trace (fst (snd (seq (f # fs) c))) = trace (fst c) @ tr \<and>
                held (snd (snd (seq (f # fs) c))) = releases (fst c) tr @ held (snd c) \<and>
                fails (fst (snd (seq (f # fs) c))) = fails (fst c)"
    proof (cases r)
      case (Some e)
      with fc t1 show ?thesis
        by (intro exI [of _ tr1]) simp
    next
      case None
      from fs obtain tr2 where
        t2: "trace (fst (snd (seq fs c1))) = trace (fst c1) @ tr2"
          "held (snd (snd (seq fs c1))) = releases (fst c1) tr2 @ held (snd c1)"
          "fails (fst (snd (seq fs c1))) = fails (fst c1)"
        unfolding tracked_def by blast
      from t1 fc have f1: "fails (fst c1) = fails (fst c)"
        by simp
      from None fc t1 t2 f1 show ?thesis
        by (intro exI [of _ "tr1 @ tr2"])
           (simp add: releases_append releases_cong [OF f1])
    qed
  qed
qed

lemma tracked_enter_body: "list_all tracked (enter_body s)"
  by (simp add: enter_body_def tracked_makedirs tracked_tempdir_dev tracked_tempdir_var
      tracked_mount_dev tracked_mknod_dev tracked_enter_api list_all_iff)

lemma enter_body_tracked:
  assumes "seq (enter_body s) (w, s\<lparr>exitstack := Some []\<rparr>) = (r, w1, s1)"
  shows "\<exists>tr. trace w1 = trace w @ tr \<and> held s1 = releases w tr \<and> fails w1 = fails w"
proof -
  let ?c0 = "(w, s\<lparr>exitstack := Some []\<rparr>)"
  have "tracked (seq (enter_body s))"
    by (rule tracked_seq [OF tracked_enter_body])
  then have "\<exists>tr. trace (fst (snd (seq (enter_body s) ?c0))) = trace (fst ?c0) @ tr \<and>
      held (snd (snd (seq (enter_body s) ?c0))) = releases (fst ?c0) tr @ held (snd ?c0) \<and>
      fails (fst (snd (seq (enter_body s) ?c0))) = fails (fst ?c0)"
    unfolding tracked_def by (rule spec)
  then show ?thesis
    by (auto simp: assms held_def)
qed

subsection \<open>Every statement of \<open>__enter__\<close> keeps the balance\<close>

lemma keepsD: "keeps D m0 e0 f \<Longrightarrow> balanced D m0 e0 c \<Longrightarrow> balanced D m0 e0 (snd (f c))"
  unfolding keeps_def by blast

lemma keeps_makedirs: "p \<in> D \<Longrightarrow> keeps D m0 e0 (makedirs p)"
  by (auto simp: keeps_def balanced_def makedirs_def perform_def Let_def)

lemma keeps_tempdir_dev: "keeps D m0 e0 tempdir_dev"
  by (auto simp: keeps_def balanced_def tempdir_dev_def perform_def Let_def
      rmtrees_def umounts_def exits_def)

lemma keeps_tempdir_var: "keeps D m0 e0 tempdir_var"
  by (auto simp: keeps_def balanced_def tempdir_var_def perform_def Let_def
      rmtrees_def umounts_def exits_def)

lemma keeps_mount_dev: "keeps D m0 e0 mount_dev"
  by (auto simp: keeps_def balanced_def mount_dev_def perform_def Let_def
      rmtrees_def umounts_def exits_def split: option.splits)

lemma keeps_mknod_dev: "keeps D m0 e0 (mknod_dev name mode major minor)"
  by (auto simp: keeps_def balanced_def mknod_dev_def mknod_def perform_def Let_def
      split: option.splits)

lemma keeps_enter_api: "keeps D m0 e0 (enter_api a)"
  by (auto simp: keeps_def balanced_def enter_api_def perform_def Let_def
      rmtrees_def umounts_def exits_def)

lemma keeps_seq: "list_all (keeps D m0 e0) fs \<Longrightarrow> keeps D m0 e0 (seq fs)"
proof (induction fs)
  case Nil
  show ?case by (simp add: keeps_def)
next
  case (Cons f fs)
  then have f: "keeps D m0 e0 f" and fs: "keeps D m0 e0 (seq fs)"
    by simp_all
  show ?case
    unfolding keeps_def
  proof (intro allI impI)
    fix c :: ctx
    assume "balanced D m0 e0 c"
    with f have b1: "balanced D m0 e0 (snd (f c))"
      by (rule keepsD)
    with fs have "balanced D m0 e0 (snd (seq fs (snd (f c))))"
      by (rule keepsD)
    with b1 show "balanced D m0 e0 (snd (seq (f # fs) c))"
      by (cases "f c") (auto split: option.splits)
  qed
qed

lemma keeps_enter_body:
  "rundir s \<in> D \<Longrightarrow> vardir s \<in> D \<Longrightarrow> list_all (keeps D m0 e0) (enter_body s)"
  by (simp add: enter_body_def keeps_makedirs keeps_tempdir_dev keeps_tempdir_var
      keeps_mount_dev keeps_mknod_dev keeps_enter_api list_all_iff)

subsection \<open>Unwinding\<close>

lemma snd_unwind_Cons: "snd (unwind (r # rs) w) = snd (unwind rs (snd (perform r w)))"
  by (simp split: prod.splits option.splits)

lemma fst_unwind_Cons:
  "fst (unwind (r # rs) w) =
     (case fst (unwind rs (snd (perform r w))) of
        None \<Rightarrow> fst (perform r w)
      | Some e \<Rightarrow> Some e)"
  by (simp split: prod.splits option.splits)

lemma unwind_trace: "trace (snd (unwind st w)) = trace w @ st"
  by (induction st arbitrary: w) (simp_all add: snd_unwind_Cons del: unwind.simps(2))

lemma unwind_fails: "fails (snd (unwind st w)) = fails w"
  by (induction st arbitrary: w) (simp_all add: snd_unwind_Cons del: unwind.simps(2))

lemma unwind_no_error:
  "list_all (\<lambda>r. \<not> fails w r) st \<Longrightarrow> fst (unwind st w) = None"
  by (induction st arbitrary: w)
     (simp_all add: fst_unwind_Cons fst_perform del: unwind.simps(2))

lemma unwind_mounted:
  "list_all (\<lambda>r. \<not> fails w r) st \<Longrightarrow> list_all is_release st \<Longrightarrow>
   mounted w = umounts st @ m0 \<Longrightarrow> mounted (snd (unwind st w)) = m0"
proof (induction st arbitrary: w)
  case Nil
  then show ?case by (simp add: umounts_def)
next
  case (Cons r rs)
  let ?w1 = "snd (perform r w)"
  from Cons.prems have ok: "\<not> fails w r" and rel: "is_release r"
    by simp_all
  from ok rel Cons.prems(3) have "mounted ?w1 = umounts rs @ m0"
    by (cases r) (simp_all add: perform_ok umounts_def)
  moreover from Cons.prems have "list_all (\<lambda>r. \<not> fails ?w1 r) rs" "list_all is_release rs"
    by simp_all
  ultimately have "mounted (snd (unwind rs ?w1)) = m0"
    by (intro Cons.IH)
  then show ?case
    by (simp add: snd_unwind_Cons del: unwind.simps(2))
qed

lemma unwind_entered:
  "list_all (\<lambda>r. \<not> fails w r) st \<Longrightarrow> list_all is_release st \<Longrightarrow>
   entered w = exits st @ e0 \<Longrightarrow> entered (snd (unwind st w)) = e0"
proof (induction st arbitrary: w)
  case Nil
  then show ?case by (simp add: exits_def)
next
  case (Cons r rs)
  let ?w1 = "snd (perform r w)"
  from Cons.prems have ok: "\<not> fails w r" and rel: "is_release r"
    by simp_all
  from ok rel Cons.prems(3) have "entered ?w1 = exits rs @ e0"
    by (cases r) (simp_all add: perform_ok exits_def)
  moreover from Cons.prems have "list_all (\<lambda>r. \<not> fails ?w1 r) rs" "list_all is_release rs"
    by simp_all
  ultimately have "entered (snd (unwind rs ?w1)) = e0"
    by (intro Cons.IH)
  then show ?case
    by (simp add: snd_unwind_Cons del: unwind.simps(2))
qed

lemma unwind_dirs:
  "list_all (\<lambda>r. \<not> fails w r) st \<Longrightarrow> list_all is_release st \<Longrightarrow>
   set (dirs (snd (unwind st w))) = set (dirs w) - set (rmtrees st)"
proof (induction st arbitrary: w)
  case Nil
  then show ?case by (simp add: rmtrees_def)
next
  case (Cons r rs)
  let ?w1 = "snd (perform r w)"
  from Cons.prems have ok: "\<not> fails w r" and rel: "is_release r"
    by simp_all
  from ok rel have d1: "set (dirs ?w1) = set (dirs w) - set (rmtree_target r)"
    by (cases r) (simp_all add: perform_ok)
  from Cons.prems have "list_all (\<lambda>r. \<not> fails ?w1 r) rs" "list_all is_release rs"
    by simp_all
  then have "set (dirs (snd (unwind rs ?w1))) = set (dirs ?w1) - set (rmtrees rs)"
    by (intro Cons.IH)
  with d1 show ?case
    by (auto simp: snd_unwind_Cons rmtrees_def simp del: unwind.simps(2))
qed

subsection \<open>The device directory\<close>

lemma seq_append:
  "seq (fs @ gs) c =
     (case seq fs c of
        (Some e, c') \<Rightarrow> (Some e, c')
      | (None, c') \<Rightarrow> seq gs c')"
  by (induction fs arbitrary: c) (auto split: prod.splits option.splits)

lemma seq_append_None:
  "seq (fs @ gs) c = (None, c'') \<Longrightarrow> \<exists>c'. seq fs c = (None, c') \<and> seq gs c' = (None, c'')"
  by (auto simp: seq_append split: prod.splits option.splits)

lemma path_join_name:
  "name \<noteq> [] \<Longrightarrow> hd name \<noteq> CHR ''/'' \<Longrightarrow> path_join d name = dir_prefix d @ name"
  by (simp add: path_join_def dir_prefix_def)

lemma inside_prefix [simp]: "inside d (dir_prefix d @ name) = (name \<noteq> [])"
  by (auto simp: inside_def)

lemma entries_hidden:
  "dir_entries (w\<lparr>nodes := filter (\<lambda>n. \<not> inside d (fst n)) ns @ ms\<rparr>) d
   = dir_entries (w\<lparr>nodes := ms\<rparr>) d"
proof -
  have "filter (\<lambda>n. inside d (fst n) \<and> P n) (filter (\<lambda>n. \<not> inside d (fst n)) ns) = []" for P
    by (induction ns) simp_all
  then show ?thesis
    by (simp add: dir_entries_def)
qed

lemma dir_entries_nodes: "nodes w = nodes w' \<Longrightarrow> dir_entries w d = dir_entries w' d"
  by (simp add: dir_entries_def)

lemma tempdirs_ok:
  assumes "exitstack (snd c) = Some st"
    and "seq [makedirs p, tempdir_dev, makedirs q, tempdir_var] c = (None, c')"
  shows "\<exists>d v. dev (snd c') = Some d \<and> var (snd c') = Some v \<and>
           exitstack (snd c') = Some (Rmtree v # Rmtree d # st) \<and>
           trace (fst c') = trace (fst c) @ [Makedirs p, Mkdtemp d, Makedirs q, Mkdtemp v] \<and>
           mounted (fst c') = mounted (fst c) \<and> entered (fst c') = entered (fst c) \<and>
           umask (fst c') = umask (fst c) \<and> apis (snd c') = apis (snd c)"
  using assms
  by (auto simp: makedirs_def tempdir_dev_def tempdir_var_def perform_def Let_def push_def
      held_def split: if_splits)

lemma mount_and_nodes:
  assumes "dev (snd c) = Some d" and "exitstack (snd c) = Some st"
    and "seq [mount_dev,
              mknod_dev ''full'' 438 1 7,
              mknod_dev ''null'' 438 1 3,
              mknod_dev ''random'' 438 1 8,
              mknod_dev ''urandom'' 438 1 9,
              mknod_dev ''tty'' 438 5 0,
              mknod_dev ''zero'' 438 1 5] c = (None, c')"
  shows "dev (snd c') = Some d \<and> var (snd c') = var (snd c) \<and>
         exitstack (snd c') = Some (Umount d # st) \<and>
         trace (fst c') = trace (fst c) @ Mount d
           # map (\<lambda>n. Mknod (path_join d (fst n)) 8630 (snd n)) node_table \<and>
         mounted (fst c') = d # mounted (fst c) \<and> entered (fst c') = entered (fst c) \<and>
         umask (fst c') = umask (fst c) \<and> apis (snd c') = apis (snd c) \<and>
         dir_entries (fst c') d = device_nodes (umask (fst c))"
proof -
  let ?m = "masked (umask (fst c)) 8630"
  from assms have d: "dev (snd c') = Some d" "var (snd c') = var (snd c)"
    "exitstack (snd c') = Some (Umount d # st)"
    "trace (fst c') = trace (fst c) @ Mount d
       # map (\<lambda>n. Mknod (path_join d (fst n)) 8630 (snd n)) node_table"
    "mounted (fst c') = d # mounted (fst c)" "entered (fst c') = entered (fst c)"
    "umask (fst c') = umask (fst c)" "apis (snd c') = apis (snd c)"
    and n: "nodes (fst c') =
      filter (\<lambda>n. \<not> inside d (fst n)) (nodes (fst c)) @
        [(dir_prefix d @ ''full'', ?m, (1, 7)),
         (dir_prefix d @ ''null'', ?m, (1, 3)),
         (dir_prefix d @ ''random'', ?m, (1, 8)),
         (dir_prefix d @ ''urandom'', ?m, (1, 9)),
         (dir_prefix d @ ''tty'', ?m, (5, 0)),
         (dir_prefix d @ ''zero'', ?m, (1, 5))]"
    by (auto simp: mount_dev_def mknod_dev_def mknod_def perform_def Let_def push_def held_def
        node_table_def path_join_name S_IMODE_def S_IFCHR_def makedev_def split: if_splits)
  have "dir_entries (fst c') d = dir_entries ((fst c')\<lparr>nodes := nodes (fst c')\<rparr>) d"
    by simp
  also have "\<dots> = device_nodes (umask (fst c))"
    unfolding n entries_hidden
    by (simp add: dir_entries_def device_nodes_def node_table_def)
  finally show ?thesis
    using d by simp
qed

lemma enter_apis_ok:
  "exitstack (snd c) = Some st \<Longrightarrow> seq (map enter_api as) c = (None, c') \<Longrightarrow>
   nodes (fst c') = nodes (fst c) \<and> dev (snd c') = dev (snd c) \<and> var (snd c') = var (snd c) \<and>
   exitstack (snd c') = Some (rev (map ApiExit as) @ st) \<and>
   trace (fst c') = trace (fst c) @ map ApiEnter as \<and>
   mounted (fst c') = mounted (fst c) \<and> entered (fst c') = rev as @ entered (fst c)"
proof (induction as arbitrary: c st)
  case Nil
  then show ?case by simp
next
  case (Cons a as)
  from Cons.prems(2) obtain c1 where 1: "enter_api a c = (None, c1)"
    and 2: "seq (map enter_api as) c1 = (None, c')"
    by (auto split: prod.splits option.splits)
  from 1 Cons.prems(1)
  have s1: "nodes (fst c1) = nodes (fst c) \<and> dev (snd c1) = dev (snd c) \<and>
      var (snd c1) = var (snd c) \<and> trace (fst c1) = trace (fst c) @ [ApiEnter a] \<and>
      mounted (fst c1) = mounted (fst c) \<and> entered (fst c1) = a # entered (fst c)"
    and e1: "exitstack (snd c1) = Some (ApiExit a # st)"
    by (auto simp: enter_api_def perform_def Let_def push_def held_def split: if_splits)
  from Cons.IH [OF e1 2] s1 show ?case
    by simp
qed

lemma enter_success:
  assumes "enter w s = (Inr (), w', s')"
  shows "\<exists>d v. dev s' = Some d \<and> var s' = Some v \<and>
           dir_entries w' d = device_nodes (umask w) \<and>
           exitstack s' = Some (rev (map ApiExit (apis s)) @ [Umount d, Rmtree v, Rmtree d]) \<and>
           trace w' = trace w @ map Rmtree (rev (rmtrees (held s)))
             @ [Makedirs (rundir s), Mkdtemp d, Makedirs (vardir s), Mkdtemp v, Mount d]
             @ map (\<lambda>n. Mknod (path_join d (fst n)) 8630 (snd n)) node_table
             @ map ApiEnter (apis s) \<and>
           mounted w' = d # mounted w \<and> entered w' = rev (apis s) @ entered w"
proof -
  let ?c0 = "(drop_stack s w, s\<lparr>exitstack := Some []\<rparr>)"
  let ?A = "[makedirs (rundir s), tempdir_dev, makedirs (vardir s), tempdir_var]"
  let ?B = "[mount_dev,
              mknod_dev ''full'' 438 1 7,
              mknod_dev ''null'' 438 1 3,
              mknod_dev ''random'' 438 1 8,
              mknod_dev ''urandom'' 438 1 9,
              mknod_dev ''tty'' 438 5 0,
              mknod_dev ''zero'' 438 1 5]"
  have body: "enter_body s = ?A @ ?B @ map enter_api (apis s)"
    by (simp add: enter_body_def)
  from assms have "seq (enter_body s) ?c0 = (None, w', s')"
    by (auto simp: enter_def split: prod.splits option.splits)
  then have "seq (?A @ ?B @ map enter_api (apis s)) ?c0 = (None, w', s')"
    by (simp only: body)
  then obtain c1 where a: "seq ?A ?c0 = (None, c1)"
    and "seq (?B @ map enter_api (apis s)) c1 = (None, w', s')"
    by (blast dest: seq_append_None)
  then obtain c2 where b: "seq ?B c1 = (None, c2)"
    and c: "seq (map enter_api (apis s)) c2 = (None, w', s')"
    by (blast dest: seq_append_None)
  have e0: "exitstack (snd ?c0) = Some []"
    by simp
  from tempdirs_ok [OF e0 a] obtain d v where d: "dev (snd c1) = Some d"
    and v: "var (snd c1) = Some v" and e1: "exitstack (snd c1) = Some (Rmtree v # Rmtree d # [])"
    and t1: "trace (fst c1) = trace (drop_stack s w)
        @ [Makedirs (rundir s), Mkdtemp d, Makedirs (vardir s), Mkdtemp v]"
    and k1: "mounted (fst c1) = mounted (drop_stack s w)"
      "entered (fst c1) = entered (drop_stack s w)" "umask (fst c1) = umask (drop_stack s w)"
      "apis (snd c1) = apis s"
    by auto
  from mount_and_nodes [OF d e1 b] v
  have 2: "dev (snd c2) = Some d" "var (snd c2) = Some v"
    "dir_entries (fst c2) d = device_nodes (umask (fst c1))"
    "trace (fst c2) = trace (fst c1) @ Mount d
       # map (\<lambda>n. Mknod (path_join d (fst n)) 8630 (snd n)) node_table"
    "mounted (fst c2) = d # mounted (fst c1)" "entered (fst c2) = entered (fst c1)"
    and e2: "exitstack (snd c2) = Some (Umount d # Rmtree v # Rmtree d # [])"
    by simp_all
  from enter_apis_ok [OF e2 c]
  have 3: "nodes w' = nodes (fst c2)" "dev s' = dev (snd c2)" "var s' = var (snd c2)"
    "exitstack s' = Some (rev (map ApiExit (apis s)) @ [Umount d, Rmtree v, Rmtree d])"
    "trace w' = trace (fst c2) @ map ApiEnter (apis s)"
    "mounted w' = mounted (fst c2)" "entered w' = rev (apis s) @ entered (fst c2)"
    by simp_all
  have 0: "trace (drop_stack s w) = trace w @ map Rmtree (rev (rmtrees (held s)))"
    "mounted (drop_stack s w) = mounted w" "entered (drop_stack s w) = entered w"
    "umask (drop_stack s w) = umask w"
    by (simp_all add: drop_stack_def finalize_trace finalize_keeps)
  from 0 t1 k1 2 3 have "dev s' = Some d \<and> var s' = Some v \<and>
      dir_entries w' d = device_nodes (umask w) \<and>
      exitstack s' = Some (rev (map ApiExit (apis s)) @ [Umount d, Rmtree v, Rmtree d]) \<and>
      trace w' = trace w @ map Rmtree (rev (rmtrees (held s)))
        @ [Makedirs (rundir s), Mkdtemp d, Makedirs (vardir s), Mkdtemp v, Mount d]
        @ map (\<lambda>n. Mknod (path_join d (fst n)) 8630 (snd n)) node_table
        @ map ApiEnter (apis s) \<and>
      mounted w' = d # mounted w \<and> entered w' = rev (apis s) @ entered w"
    by (simp add: dir_entries_nodes [of w' "fst c2"])
  then show ?thesis
    by blast
qed

lemma enter_success_open:
  assumes "enter w s = (Inr (), w', s')"
  shows "is_open s'"
  using enter_success [OF assms] by (auto simp: is_open_def)

subsection \<open>The concrete hosts, evaluated\<close>

lemma enter_host0:
  "enter host0 root0 =
     (Inr (),
      host0\<lparr>tmp_used := 2,
        dirs := [''/var/tmp/osbuild-var-tt'', ''/var/tmp'',
                 ''/run/osbuild/osbuild-dev-t'', ''/run/osbuild''],
        mounted := [''/run/osbuild/osbuild-dev-t''],
        nodes := [(''/run/osbuild/osbuild-dev-t/full'', 8612, 1, 7),
                  (''/run/osbuild/osbuild-dev-t/null'', 8612, 1, 3),
                  (''/run/osbuild/osbuild-dev-t/random'', 8612, 1, 8),
                  (''/run/osbuild/osbuild-dev-t/urandom'', 8612, 1, 9),
                  (''/run/osbuild/osbuild-dev-t/tty'', 8612, 5, 0),
                  (''/run/osbuild/osbuild-dev-t/zero'', 8612, 1, 5)],
        trace := [Makedirs ''/run/osbuild'', Mkdtemp ''/run/osbuild/osbuild-dev-t'',
                  Makedirs ''/var/tmp'', Mkdtemp ''/var/tmp/osbuild-var-tt'',
                  Mount ''/run/osbuild/osbuild-dev-t'',
                  Mknod ''/run/osbuild/osbuild-dev-t/full'' 8630 (1, 7),
                  Mknod ''/run/osbuild/osbuild-dev-t/null'' 8630 (1, 3),
                  Mknod ''/run/osbuild/osbuild-dev-t/random'' 8630 (1, 8),
                  Mknod ''/run/osbuild/osbuild-dev-t/urandom'' 8630 (1, 9),
                  Mknod ''/run/osbuild/osbuild-dev-t/tty'' 8630 (5, 0),
                  Mknod ''/run/osbuild/osbuild-dev-t/zero'' 8630 (1, 5)]\<rparr>,
      root0\<lparr>exitstack := Some [Umount ''/run/osbuild/osbuild-dev-t'',
                               Rmtree ''/var/tmp/osbuild-var-tt'',
                               Rmtree ''/run/osbuild/osbuild-dev-t''],
        dev := Some ''/run/osbuild/osbuild-dev-t'',
        var := Some ''/var/tmp/osbuild-var-tt''\<rparr>)"
  by (simp add: enter_def enter_body_def host0_def root0_def init_def stmt_defs Let_def
      numeral_2_eq_2)

lemmas host1_eq = host1_def [unfolded enter_host0 snd_conv fst_conv]

lemmas root1_eq = root1_def [unfolded enter_host0 snd_conv fst_conv]

lemma enter_host0_opened: "enter host0 root0 = (Inr (), host1, root1)"
  by (simp add: host1_def root1_def enter_host0)

lemma exit_host1:
  "fst (exit_ctx host1 root1) = Inr () \<and>
   exitstack (snd (snd (exit_ctx host1 root1))) = None \<and>
   dev (snd (snd (exit_ctx host1 root1))) = Some ''/run/osbuild/osbuild-dev-t'' \<and>
   var (snd (snd (exit_ctx host1 root1))) = Some ''/var/tmp/osbuild-var-tt''"
  by (simp add: exit_ctx_def host1_eq root1_eq host0_def root0_def init_def stmt_defs Let_def)

lemma enter_host1:
  "fst (enter host1 root1) = Inr () \<and>
   mounted (fst (snd (enter host1 root1))) =
     [''/run/osbuild/osbuild-dev-ttt'', ''/run/osbuild/osbuild-dev-t''] \<and>
   dev (snd (snd (enter host1 root1))) = Some ''/run/osbuild/osbuild-dev-ttt'' \<and>
   var (snd (snd (enter host1 root1))) = Some ''/var/tmp/osbuild-var-tttt'' \<and>
   held (snd (snd (enter host1 root1))) =
     [Umount ''/run/osbuild/osbuild-dev-ttt'',
      Rmtree ''/var/tmp/osbuild-var-tttt'',
      Rmtree ''/run/osbuild/osbuild-dev-ttt'']"
  by (simp add: enter_def enter_body_def host1_eq root1_eq host0_def root0_def init_def
      stmt_defs Let_def numeral_2_eq_2)

lemma enter_host_plain: "fst (enter host_plain root0) = Inr ()"
  by (simp add: enter_def enter_body_def host_plain_def host0_def root0_def init_def stmt_defs
      Let_def numeral_2_eq_2)

lemma masked_type: "masked u 8630 AND 61440 = 8192"
proof -
  have "masked u 8630 AND 61440 = (8630 AND 61440) AND NOT (u AND 511)"
    unfolding masked_def by (metis and.assoc and.commute)
  also have "\<dots> = 8192 AND NOT (u AND 511)"
    by simp
  also have "\<dots> = 8192 AND (NOT u OR NOT 511)"
    by (simp add: bit.de_Morgan_conj)
  also have "\<dots> = (8192 AND NOT u) OR (8192 AND NOT 511)"
    by (simp add: bit.conj_disj_distrib)
  also have "\<dots> = (8192 AND NOT u) OR 8192"
    by simp
  also have "\<dots> = 8192"
    by (auto simp: bit_eq_iff bit_simps)
  finally show ?thesis .
qed

lemma masked_perm: "masked u 8630 AND 4095 = masked u 438"
proof -
  have "masked u 8630 AND 4095 = (8630 AND 4095) AND NOT (u AND 511)"
    unfolding masked_def by (metis and.assoc and.commute)
  also have "(8630::int) AND 4095 = 438"
    by simp
  finally show ?thesis
    by (simp only: masked_def)
qed

lemma masked_clear: "u AND 438 = 0 \<Longrightarrow> masked u 438 = 438"
proof -
  assume a: "u AND 438 = 0"
  have "438 AND NOT (u AND 511) = (438 AND NOT u) OR (438 AND NOT 511)"
    by (simp add: bit.de_Morgan_conj bit.conj_disj_distrib)
  also have "\<dots> = 438 AND NOT u"
    by simp
  also have "\<dots> = 438 XOR (438 AND u)"
    by (simp add: bit_eq_iff bit_simps) blast
  also have "\<dots> = 438"
    using a by (simp add: ac_simps)
  finally show ?thesis
    by (simp add: masked_def)
qed

lemma enter_host_nodev:
  "enter host_nodev root0 =
     (Inl (Failed (Mknod ''/run/osbuild/osbuild-dev-t/tty'' 8630 (5, 0))),
      host_nodev\<lparr>tmp_used := 2,
        dirs := [''/var/tmp'', ''/run/osbuild''],
        trace := [Makedirs ''/run/osbuild'', Mkdtemp ''/run/osbuild/osbuild-dev-t'',
                  Makedirs ''/var/tmp'', Mkdtemp ''/var/tmp/osbuild-var-tt'',
                  Mount ''/run/osbuild/osbuild-dev-t'',
                  Mknod ''/run/osbuild/osbuild-dev-t/full'' 8630 (1, 7),
                  Mknod ''/run/osbuild/osbuild-dev-t/null'' 8630 (1, 3),
                  Mknod ''/run/osbuild/osbuild-dev-t/random'' 8630 (1, 8),
                  Mknod ''/run/osbuild/osbuild-dev-t/urandom'' 8630 (1, 9),
                  Mknod ''/run/osbuild/osbuild-dev-t/tty'' 8630 (5, 0),
                  Umount ''/run/osbuild/osbuild-dev-t'',
                  Rmtree ''/var/tmp/osbuild-var-tt'',
                  Rmtree ''/run/osbuild/osbuild-dev-t'']\<rparr>,
      root0\<lparr>exitstack := Some [],
        dev := Some ''/run/osbuild/osbuild-dev-t'',
        var := Some ''/var/tmp/osbuild-var-tt''\<rparr>)"
  by (simp add: enter_def enter_body_def host_nodev_def host0_def root0_def init_def stmt_defs
      Let_def numeral_2_eq_2)

lemma api_mounts_append: "api_mounts (as @ bs) m = api_mounts bs (api_mounts as m)"
  by (induction as arbitrary: m) (simp_all add: Let_def)

section \<open>Opening, closing and registering\<close>

text \<open>
  Claim C1, as the code has it. If a step of \<open>__enter__\<close> fails, every release action
  registered so far in that call runs at once, in reverse order of registration: the
  operations attempted by the call are some \<open>tr\<close> followed by exactly the releases owed
  for \<open>tr\<close>, and the object holds no release action afterwards. When none of these
  releases fails, the exception that leaves is the one of the failed step, the mount
  points and the entered endpoints are as before the call, no directory is left except
  the ensured \<open>rundir\<close> and \<open>vardir\<close>, and every temporary directory created is gone.
  (When a release fails, its exception leaves instead. The attributes \<open>dev\<close> and
  \<open>var\<close> are not reset.)
\<close>

theorem enter_failure_unwinds:
  assumes "enter w s = (Inl e, w', s')"
  shows "\<exists>tr. trace w' = trace w @ tr @ releases w tr \<and> held s' = [] \<and>
           (list_all (\<lambda>r. \<not> fails w r) (releases w tr) \<longrightarrow>
              fst (seq (enter_body s) (w, s\<lparr>exitstack := Some []\<rparr>)) = Some e \<and>
              mounted w' = mounted w \<and> entered w' = entered w \<and>
              set (dirs w') \<subseteq> set (dirs w) \<union> {rundir s, vardir s} \<and>
              list_all (\<lambda>p. p \<notin> set (dirs w')) (rmtrees (releases w tr)))"
proof -
  let ?w0 = "drop_stack s w"
  let ?c0 = "(?w0, s\<lparr>exitstack := Some []\<rparr>)"
  let ?D = "set (dirs w) \<union> {rundir s, vardir s}"
  let ?fin = "map Rmtree (rev (rmtrees (held s)))"
  have w0: "trace ?w0 = trace w @ ?fin" "fails ?w0 = fails w" "mounted ?w0 = mounted w"
    "entered ?w0 = entered w" "set (dirs ?w0) \<subseteq> set (dirs w)"
    by (simp_all add: drop_stack_def finalize_trace finalize_keeps)
  obtain r w1 s1 where sq: "seq (enter_body s) ?c0 = (r, w1, s1)"
    by (cases "seq (enter_body s) ?c0") auto
  obtain x w2 where uw: "unwind (held s1) w1 = (x, w2)"
    by (cases "unwind (held s1) w1")
  from assms sq obtain e0 where r: "r = Some e0"
    by (cases r) (auto simp: enter_def)
  from assms sq r uw have w': "w' = w2" and s': "s' = s1\<lparr>exitstack := Some []\<rparr>"
    and e: "e = (case x of None \<Rightarrow> e0 | Some e1 \<Rightarrow> e1)"
    by (auto simp: enter_def split: option.splits)
  from enter_body_tracked [OF sq] obtain tr0 where
    tr0: "trace w1 = trace ?w0 @ tr0" "held s1 = releases ?w0 tr0" "fails w1 = fails ?w0"
    by blast
  define tr where "tr = ?fin @ tr0"
  have tr: "trace w1 = trace w @ tr" "held s1 = releases w tr" "fails w1 = fails w"
    using tr0 w0 by (simp_all add: tr_def releases_rmtrees releases_cong [of ?w0 w])
  have k: "keeps ?D (mounted w) (entered w) (seq (enter_body s))"
    by (rule keeps_seq [OF keeps_enter_body]) simp_all
  have "balanced ?D (mounted w) (entered w) ?c0"
    using w0 by (auto simp: balanced_def held_def umounts_def exits_def rmtrees_def)
  with k have "balanced ?D (mounted w) (entered w) (snd (seq (enter_body s) ?c0))"
    by (rule keepsD)
  then have bal: "balanced ?D (mounted w) (entered w) (w1, s1)"
    by (simp add: sq)
  have t: "trace w' = trace w @ tr @ releases w tr"
    using unwind_trace [of "held s1" w1] uw tr w' by simp
  have h: "held s' = []"
    by (simp add: s' held_def)
  have rest: "fst (seq (enter_body s) (w, s\<lparr>exitstack := Some []\<rparr>)) = Some e \<and>
              mounted w' = mounted w \<and> entered w' = entered w \<and>
              set (dirs w') \<subseteq> ?D \<and>
              list_all (\<lambda>p. p \<notin> set (dirs w')) (rmtrees (releases w tr))"
    if ok: "list_all (\<lambda>r. \<not> fails w r) (releases w tr)"
  proof -
    from ok tr have ok1: "list_all (\<lambda>r. \<not> fails w1 r) (held s1)"
      by simp
    have rel: "list_all is_release (held s1)"
      by (simp add: tr is_release_releases)
    from unwind_no_error [OF ok1] uw have "x = None"
      by simp
    with e sq r have "fst (seq (enter_body s) ?c0) = Some e"
      by simp
    then have 1: "fst (seq (enter_body s) (w, s\<lparr>exitstack := Some []\<rparr>)) = Some e"
      by (simp add: enter_body_same_error)
    from bal have "mounted w1 = umounts (held s1) @ mounted w"
      and "entered w1 = exits (held s1) @ entered w"
      and d: "set (dirs w1) \<subseteq> ?D \<union> set (rmtrees (held s1))"
      by (simp_all add: balanced_def)
    with unwind_mounted [OF ok1 rel] unwind_entered [OF ok1 rel] uw w'
    have 2: "mounted w' = mounted w" "entered w' = entered w"
      by simp_all
    from unwind_dirs [OF ok1 rel] uw w'
    have 3: "set (dirs w') = set (dirs w1) - set (rmtrees (held s1))"
      by simp
    with d have 4: "set (dirs w') \<subseteq> ?D"
      by blast
    from 3 tr have 5: "list_all (\<lambda>p. p \<notin> set (dirs w')) (rmtrees (releases w tr))"
      by (simp add: list_all_iff)
    from 1 2 4 5 show ?thesis
      by simp
  qed
  from t h rest show ?thesis
    by blast
qed

text \<open>
  On the host where creating the \<open>tty\<close> node fails, no release fails, so the whole
  conclusion applies: the error is the one of \<open>mknod\<close>, and nothing stays mounted.
\<close>

theorem enter_failure_unwinds_witness:
  "fst (enter host_nodev root0) = Inl (Failed (Mknod ''/run/osbuild/osbuild-dev-t/tty'' 8630 (5, 0))) \<and>
   (\<exists>tr. trace (fst (snd (enter host_nodev root0))) = trace host_nodev @ tr @ releases host_nodev tr \<and>
         list_all (\<lambda>r. \<not> fails host_nodev r) (releases host_nodev tr)) \<and>
   fst (seq (enter_body root0) (host_nodev, root0\<lparr>exitstack := Some []\<rparr>))
     = Some (Failed (Mknod ''/run/osbuild/osbuild-dev-t/tty'' 8630 (5, 0))) \<and>
   mounted (fst (snd (enter host_nodev root0))) = mounted host_nodev \<and>
   entered (fst (snd (enter host_nodev root0))) = entered host_nodev \<and>
   held (snd (snd (enter host_nodev root0))) = []"
proof -
  let ?e = "Failed (Mknod ''/run/osbuild/osbuild-dev-t/tty'' 8630 (5, 0))"
  let ?w = "fst (snd (enter host_nodev root0))"
  let ?s = "snd (snd (enter host_nodev root0))"
  have run: "enter host_nodev root0 = (Inl ?e, ?w, ?s)"
    by (simp add: enter_host_nodev)
  from enter_failure_unwinds [OF run] obtain tr where
    tr: "trace ?w = trace host_nodev @ tr @ releases host_nodev tr" "held ?s = []"
    and imp: "list_all (\<lambda>r. \<not> fails host_nodev r) (releases host_nodev tr) \<longrightarrow>
              fst (seq (enter_body root0) (host_nodev, root0\<lparr>exitstack := Some []\<rparr>)) = Some ?e \<and>
              mounted ?w = mounted host_nodev \<and> entered ?w = entered host_nodev \<and>
              set (dirs ?w) \<subseteq> set (dirs host_nodev) \<union> {rundir root0, vardir root0} \<and>
              list_all (\<lambda>p. p \<notin> set (dirs ?w)) (rmtrees (releases host_nodev tr))"
    by blast
  have "\<not> fails host_nodev r" if "is_release r" for r
    using that by (cases r) (simp_all add: host_nodev_def)
  with is_release_releases [of host_nodev tr]
  have ok: "list_all (\<lambda>r. \<not> fails host_nodev r) (releases host_nodev tr)"
    by (auto simp: list_all_iff)
  with imp tr show ?thesis
    by (auto simp: enter_host_nodev)
qed

text \<open>
  The claim as stated fails there: after the failed \<open>__enter__\<close> the object passes the
  test \<open>if self._exitstack\<close>, and \<open>dev\<close> and \<open>var\<close> name the removed directories.
\<close>

theorem enter_failure_leaves_state:
  "fst (enter host_nodev root0) = Inl (Failed (Mknod ''/run/osbuild/osbuild-dev-t/tty'' 8630 (5, 0))) \<and>
   is_open (snd (snd (enter host_nodev root0))) \<and>
   dev (snd (snd (enter host_nodev root0))) = Some ''/run/osbuild/osbuild-dev-t'' \<and>
   var (snd (snd (enter host_nodev root0))) = Some ''/var/tmp/osbuild-var-tt''"
  by (simp add: enter_host_nodev is_open_def)

text \<open>
  Claim C2, as the code has it. \<open>__enter__\<close> does not look at whether the object is
  open, and no error for that exists. Called on an open object it acquires a complete
  new set of resources, as it does on a closed one: when it succeeds, the operations of
  the call end with the creation of two new temporary directories and of the mount, the
  six device nodes and the entering of every registered endpoint; the new mount is on
  top of the mounts there were and the endpoints are entered on top of those that were
  entered (nothing is unmounted and no endpoint is left); and the exit stack holds the
  releases of the new resources and nothing else. What the call does before these
  acquisitions is not stated here.
\<close>

theorem enter_on_open_object:
  assumes "is_open s" and "enter w s = (Inr (), w', s')"
  shows "\<exists>pre d v.
           dev s' = Some d \<and> var s' = Some v \<and>
           trace w' = trace w @ pre
             @ [Makedirs (rundir s), Mkdtemp d, Makedirs (vardir s), Mkdtemp v, Mount d]
             @ map (\<lambda>n. Mknod (path_join d (fst n)) 8630 (snd n)) node_table
             @ map ApiEnter (apis s) \<and>
           mounted w' = d # mounted w \<and> entered w' = rev (apis s) @ entered w \<and>
           held s' = rev (map ApiExit (apis s)) @ [Umount d, Rmtree v, Rmtree d]"
proof -
  from enter_success [OF assms(2)] obtain d v where
    "dev s' = Some d" "var s' = Some v"
    "exitstack s' = Some (rev (map ApiExit (apis s)) @ [Umount d, Rmtree v, Rmtree d])"
    "trace w' = trace w @ map Rmtree (rev (rmtrees (held s)))
       @ [Makedirs (rundir s), Mkdtemp d, Makedirs (vardir s), Mkdtemp v, Mount d]
       @ map (\<lambda>n. Mknod (path_join d (fst n)) 8630 (snd n)) node_table
       @ map ApiEnter (apis s)"
    "mounted w' = d # mounted w" "entered w' = rev (apis s) @ entered w"
    by blast
  then show ?thesis
    by (intro exI [of _ "map Rmtree (rev (rmtrees (held s)))"] exI [of _ d] exI [of _ v])
       (simp add: held_def)
qed

theorem enter_on_open_object_witness:
  "is_open root1 \<and> fst (enter host1 root1) = Inr () \<and>
   (\<exists>pre. trace (fst (snd (enter host1 root1))) = trace host1 @ pre
      @ [Makedirs ''/run/osbuild'', Mkdtemp ''/run/osbuild/osbuild-dev-ttt'',
         Makedirs ''/var/tmp'', Mkdtemp ''/var/tmp/osbuild-var-tttt'',
         Mount ''/run/osbuild/osbuild-dev-ttt'']
      @ map (\<lambda>n. Mknod (path_join ''/run/osbuild/osbuild-dev-ttt'' (fst n)) 8630 (snd n))
          node_table) \<and>
   mounted (fst (snd (enter host1 root1))) = ''/run/osbuild/osbuild-dev-ttt'' # mounted host1 \<and>
   held (snd (snd (enter host1 root1))) =
     [Umount ''/run/osbuild/osbuild-dev-ttt'',
      Rmtree ''/var/tmp/osbuild-var-tttt'',
      Rmtree ''/run/osbuild/osbuild-dev-ttt'']"
proof -
  let ?w = "fst (snd (enter host1 root1))"
  let ?s = "snd (snd (enter host1 root1))"
  have o: "is_open root1"
    by (simp add: is_open_def root1_eq)
  have r: "enter host1 root1 = (Inr (), ?w, ?s)"
    using enter_host1 by (cases "enter host1 root1") simp
  have a: "apis root1 = []" "rundir root1 = ''/run/osbuild''" "vardir root1 = ''/var/tmp''"
    by (simp_all add: root1_eq root0_def init_def)
  from enter_on_open_object [OF o r] obtain pre d v where
    "dev ?s = Some d" "var ?s = Some v"
    "trace ?w = trace host1 @ pre
       @ [Makedirs (rundir root1), Mkdtemp d, Makedirs (vardir root1), Mkdtemp v, Mount d]
       @ map (\<lambda>n. Mknod (path_join d (fst n)) 8630 (snd n)) node_table
       @ map ApiEnter (apis root1)"
    "mounted ?w = d # mounted host1"
    "held ?s = rev (map ApiExit (apis root1)) @ [Umount d, Rmtree v, Rmtree d]"
    by blast
  with enter_host1 a o show ?thesis
    by auto
qed

text \<open>
  The claim as stated fails on the open object: a second \<open>__enter__\<close> succeeds and a
  second tmpfs is mounted.
\<close>

theorem enter_twice_acquires_again:
  "is_open root1 \<and> mounted host1 = [''/run/osbuild/osbuild-dev-t''] \<and>
   fst (enter host1 root1) = Inr () \<and>
   mounted (fst (snd (enter host1 root1))) =
     [''/run/osbuild/osbuild-dev-ttt'', ''/run/osbuild/osbuild-dev-t'']"
proof -
  have "is_open root1"
    by (simp add: is_open_def root1_eq)
  moreover have "mounted host1 = [''/run/osbuild/osbuild-dev-t'']"
    by (simp add: host1_eq)
  ultimately show ?thesis
    using enter_host1 by simp
qed

text \<open>
  Claim C3, as the code has it. \<open>__exit__\<close> on an object that is not open raises: the
  method looks up \<open>close\<close> on \<open>None\<close>, which is an \<open>AttributeError\<close>. Nothing is
  released and nothing changes.
\<close>

theorem close_not_open_raises:
  "\<not> is_open s \<Longrightarrow> exit_ctx w s = (Inl AttributeError, w, s)"
  by (simp add: exit_ctx_def is_open_def)

theorem close_not_open_raises_witness:
  "\<not> is_open root0 \<and> exit_ctx host0 root0 = (Inl AttributeError, host0, root0)"
  using close_not_open_raises [of root0 host0]
  by (simp add: is_open_def root0_def init_def)

text \<open>The claim as stated fails on a fresh object: the call is not silent.\<close>

theorem close_not_open_not_silent:
  "\<not> is_open root0 \<and> fst (exit_ctx host0 root0) = Inl AttributeError"
  by (simp add: exit_ctx_def is_open_def root0_def init_def)

text \<open>
  Claim C4, as the code has it. A new object is closed and both directory references
  are \<open>None\<close>; after a successful \<open>__enter__\<close> the object is open and both are set;
  \<open>register_api\<close> changes neither the references nor whether the object is open;
  \<open>__exit__\<close> leaves the references as they are, and when it returns the object is
  closed. (\<open>run\<close> assigns to no attribute: it returns no new object.) So the references
  are set whenever the object has been opened, and they are never cleared.
\<close>

theorem directory_references_kept:
  "(dev (init root rn lib vr rd) = None \<and> var (init root rn lib vr rd) = None \<and>
    \<not> is_open (init root rn lib vr rd)) \<and>
   (enter w s = (Inr (), w1, s1) \<longrightarrow> is_open s1 \<and> dev s1 \<noteq> None \<and> var s1 \<noteq> None) \<and>
   (register_api a w s = (r2, w2, s2) \<longrightarrow>
      dev s2 = dev s \<and> var s2 = var s \<and> is_open s2 = is_open s) \<and>
   (exit_ctx w s = (r3, w3, s3) \<longrightarrow>
      dev s3 = dev s \<and> var s3 = var s \<and> (r3 = Inr () \<longrightarrow> \<not> is_open s3))"
proof -
  have 1: "dev (init root rn lib vr rd) = None \<and> var (init root rn lib vr rd) = None \<and>
      \<not> is_open (init root rn lib vr rd)"
    by (simp add: init_def is_open_def)
  have 2: "is_open s1 \<and> dev s1 \<noteq> None \<and> var s1 \<noteq> None" if "enter w s = (Inr (), w1, s1)"
    using enter_success [OF that] enter_success_open [OF that] by auto
  have 3: "dev s2 = dev s \<and> var s2 = var s \<and> is_open s2 = is_open s"
    if "register_api a w s = (r2, w2, s2)"
    using that
    by (auto simp: register_api_def enter_api_def perform_def Let_def push_def is_open_def
        split: if_splits)
  have 4: "dev s3 = dev s \<and> var s3 = var s \<and> (r3 = Inr () \<longrightarrow> \<not> is_open s3)"
    if "exit_ctx w s = (r3, w3, s3)"
    using that
    by (auto simp: exit_ctx_def is_open_def split: option.splits prod.splits)
  from 1 2 3 4 show ?thesis
    by blast
qed

theorem directory_references_kept_witness:
  "enter host0 root0 = (Inr (), host1, root1) \<and>
   is_open root1 \<and> dev root1 \<noteq> None \<and> var root1 \<noteq> None \<and>
   dev (snd (snd (register_api api0 host1 root1))) = dev root1 \<and>
   is_open (snd (snd (register_api api0 host1 root1))) \<and>
   fst (exit_ctx host1 root1) = Inr () \<and>
   dev (snd (snd (exit_ctx host1 root1))) = dev root1 \<and>
   var (snd (snd (exit_ctx host1 root1))) = var root1 \<and>
   \<not> is_open (snd (snd (exit_ctx host1 root1)))"
proof -
  let ?reg = "register_api api0 host1 root1"
  let ?ex = "exit_ctx host1 root1"
  have reg: "?reg = (fst ?reg, fst (snd ?reg), snd (snd ?reg))"
    by simp
  have ex: "?ex = (Inr (), fst (snd ?ex), snd (snd ?ex))"
    using exit_host1 by (cases ?ex) simp
  note kept = directory_references_kept [of "''/tree''" "''org.osbuild.linux''" "''/lib''"
      "''/var/tmp''" "''/run/osbuild''" host0 root0 host1 root1 api0 "fst ?reg" "fst (snd ?reg)"
      "snd (snd ?reg)" "Inr ()" "fst (snd ?ex)" "snd (snd ?ex)"]
  from kept enter_host0_opened
  have a: "is_open root1 \<and> dev root1 \<noteq> None \<and> var root1 \<noteq> None"
    by blast
  have "enter host0 root0 = (Inr (), host1, root1) \<longrightarrow>
      register_api api0 host1 root1 = ?reg \<longrightarrow> exit_ctx host1 root1 = ?ex \<longrightarrow> True"
    by simp
  from directory_references_kept [of "''/tree''" "''org.osbuild.linux''" "''/lib''"
      "''/var/tmp''" "''/run/osbuild''" host1 root1 host1 root1 api0 "fst ?reg" "fst (snd ?reg)"
      "snd (snd ?reg)" "Inr ()" "fst (snd ?ex)" "snd (snd ?ex)"] reg ex
  have b: "dev (snd (snd ?reg)) = dev root1 \<and> is_open (snd (snd ?reg)) = is_open root1"
    and c: "dev (snd (snd ?ex)) = dev root1 \<and> var (snd (snd ?ex)) = var root1 \<and>
      \<not> is_open (snd (snd ?ex))"
    by blast+
  from a b c enter_host0_opened exit_host1 show ?thesis
    by blast
qed

text \<open>
  The claim as stated fails after an ordinary open and close: the object is closed and
  both references are still set.
\<close>

theorem close_keeps_references:
  "fst (exit_ctx host1 root1) = Inr () \<and>
   \<not> is_open (snd (snd (exit_ctx host1 root1))) \<and>
   dev (snd (snd (exit_ctx host1 root1))) = Some ''/run/osbuild/osbuild-dev-t'' \<and>
   var (snd (snd (exit_ctx host1 root1))) = Some ''/var/tmp/osbuild-var-tt''"
  using exit_host1 by (simp add: is_open_def)

text \<open>
  Claim C5, as the code has it. \<open>register_api\<close> does not compare names: an endpoint
  whose name is already registered is appended like any other. The registrations made
  before stay, in order, in front of it; the only exception the call can raise is the
  one of the endpoint's own \<open>__enter__\<close>, and on an object that is not open the call
  succeeds and changes nothing else; the bindings of \<open>run\<close> for the earlier endpoints
  are as before, followed by one more for the new entry.
\<close>

theorem register_api_accepts_duplicate:
  assumes "endpoint a \<in> set (map endpoint (apis s))"
  shows "apis (snd (snd (register_api a w s))) = apis s @ [a] \<and>
         (fst (register_api a w s) = Inr () \<or>
          fst (register_api a w s) = Inl (Failed (ApiEnter a))) \<and>
         (\<not> is_open s \<longrightarrow> register_api a w s = (Inr (), w, s\<lparr>apis := apis s @ [a]\<rparr>)) \<and>
         api_mounts (apis (snd (snd (register_api a w s)))) m =
           api_mounts (apis s) m
           @ map Some [''--bind'', socket_address a, ''/run/osbuild/api/'' @ endpoint a]"
proof -
  have 1: "apis (snd (snd (register_api a w s))) = apis s @ [a]"
    by (simp add: register_api_def enter_api_def perform_def Let_def push_def is_open_def)
  have 2: "fst (register_api a w s) = Inr () \<or>
      fst (register_api a w s) = Inl (Failed (ApiEnter a))"
    by (simp add: register_api_def enter_api_def perform_def Let_def push_def is_open_def)
  have 3: "register_api a w s = (Inr (), w, s\<lparr>apis := apis s @ [a]\<rparr>)" if "\<not> is_open s"
    using that by (simp add: register_api_def is_open_def Let_def)
  have 4: "api_mounts (apis s @ [a]) m =
      api_mounts (apis s) m
      @ map Some [''--bind'', socket_address a, ''/run/osbuild/api/'' @ endpoint a]"
    by (simp add: api_mounts_append Let_def)
  from 1 2 3 4 show ?thesis
    by simp
qed

theorem register_api_accepts_duplicate_witness:
  "endpoint api0 \<in> set (map endpoint (apis (root0\<lparr>apis := [api0]\<rparr>))) \<and>
   \<not> is_open (root0\<lparr>apis := [api0]\<rparr>) \<and>
   register_api api0 host0 (root0\<lparr>apis := [api0]\<rparr>)
     = (Inr (), host0, root0\<lparr>apis := [api0, api0]\<rparr>)"
proof -
  have h: "endpoint api0 \<in> set (map endpoint (apis (root0\<lparr>apis := [api0]\<rparr>)))"
    by simp
  from register_api_accepts_duplicate [OF h, of host0] show ?thesis
    by (simp add: is_open_def root0_def init_def)
qed

text \<open>
  The claim as stated fails on a fresh object: registering the same endpoint twice
  succeeds both times, and the name is then registered twice.
\<close>

theorem register_api_duplicate_succeeds:
  "register_api api0 host0 root0 = (Inr (), host0, root0\<lparr>apis := [api0]\<rparr>) \<and>
   register_api api0 host0 (root0\<lparr>apis := [api0]\<rparr>)
     = (Inr (), host0, root0\<lparr>apis := [api0, api0]\<rparr>)"
  by (simp add: register_api_def is_open_def root0_def init_def Let_def)

text \<open>
  Claim C6, as the code has it. After a successful \<open>__enter__\<close> the device directory
  \<open>dev\<close> holds exactly the six nodes \<open>full\<close> (1,7), \<open>null\<close> (1,3), \<open>random\<close> (1,8),
  \<open>urandom\<close> (1,9), \<open>tty\<close> (5,0) and \<open>zero\<close> (1,5), and nothing else. Each is a
  character device (61440 is the file-type mask 0o170000) created with the requested
  permission bits 0o666 (438) less the bits of the process mask; they are 0o666 when
  the mask clears none of them.
\<close>

theorem enter_device_nodes:
  assumes "enter w s = (Inr (), w', s')"
  shows "(\<exists>d. dev s' = Some d \<and> dir_entries w' d = device_nodes (umask w)) \<and>
         map fst (device_nodes (umask w))
           = [''full'', ''null'', ''random'', ''urandom'', ''tty'', ''zero''] \<and>
         map (\<lambda>n. snd (snd n)) (device_nodes (umask w))
           = [(1, 7), (1, 3), (1, 8), (1, 9), (5, 0), (1, 5)] \<and>
         list_all (\<lambda>n. fst (snd n) AND 61440 = S_IFCHR \<and>
                        S_IMODE (fst (snd n)) = masked (umask w) 438)
           (device_nodes (umask w)) \<and>
         (umask w AND 438 = 0 \<longrightarrow> masked (umask w) 438 = 438)"
proof -
  from enter_success [OF assms]
  have "\<exists>d. dev s' = Some d \<and> dir_entries w' d = device_nodes (umask w)"
    by blast
  then show ?thesis
    by (simp add: device_nodes_def node_table_def S_IMODE_def S_IFCHR_def masked_type
        masked_perm masked_clear)
qed

text \<open>On the host whose mask is 0 the six nodes have the permission bits 0o666.\<close>

theorem enter_device_nodes_witness:
  "fst (enter host_plain root0) = Inr () \<and> umask host_plain AND 438 = 0 \<and>
   (\<exists>d. dev (snd (snd (enter host_plain root0))) = Some d \<and>
        dir_entries (fst (snd (enter host_plain root0))) d = device_nodes 0) \<and>
   map (\<lambda>n. S_IMODE (fst (snd n))) (device_nodes 0) = [438, 438, 438, 438, 438, 438]"
proof -
  let ?w = "fst (snd (enter host_plain root0))"
  let ?s = "snd (snd (enter host_plain root0))"
  have r: "enter host_plain root0 = (Inr (), ?w, ?s)"
    using enter_host_plain by (cases "enter host_plain root0") simp
  have u: "umask host_plain = 0"
    by (simp add: host_plain_def)
  from enter_device_nodes [OF r] u enter_host_plain show ?thesis
    by (simp add: device_nodes_def node_table_def S_IMODE_def masked_def)
qed

text \<open>
  The claim as stated fails under the usual mask 0o022: the six nodes are there, with
  the permission bits 0o644 (420).
\<close>

theorem device_nodes_under_umask:
  "enter host0 root0 = (Inr (), host1, root1) \<and> umask host0 = 18 \<and>
   dev root1 = Some ''/run/osbuild/osbuild-dev-t'' \<and>
   map (\<lambda>n. (fst n, S_IMODE (fst (snd n)))) (dir_entries host1 ''/run/osbuild/osbuild-dev-t'')
     = [(''full'', 420), (''null'', 420), (''random'', 420), (''urandom'', 420),
        (''tty'', 420), (''zero'', 420)]"
proof -
  have "umask host0 = 18"
    by (simp add: host0_def)
  moreover have "dev root1 = Some ''/run/osbuild/osbuild-dev-t''"
    by (simp add: root1_eq)
  moreover have "map (\<lambda>n. (fst n, S_IMODE (fst (snd n))))
      (dir_entries host1 ''/run/osbuild/osbuild-dev-t'')
     = [(''full'', 420), (''null'', 420), (''random'', 420), (''urandom'', 420),
        (''tty'', 420), (''zero'', 420)]"
    by (simp add: host1_eq dir_entries_def inside_def dir_prefix_def path_join_def S_IMODE_def)
  ultimately show ?thesis
    using enter_host0_opened by simp
qed

section \<open>The bind list\<close>


lemma those_map_Some [simp]: "those (map Some xs) = Some xs"
  by (induction xs) simp_all

lemma path_join_last: "p \<noteq> [] \<Longrightarrow> hd p \<noteq> CHR ''/'' \<Longrightarrow> last (path_join r p) = last p"
  by (simp add: path_join_def)

lemma boot_not_usr [simp]:
  "path_join r ''boot'' \<noteq> path_join r ''usr''" "path_join r ''usr'' \<noteq> path_join r ''boot''"
proof -
  have "last (path_join r ''boot'') = CHR ''t''" "last (path_join r ''usr'') = CHR ''r''"
    by (simp_all add: path_join_last)
  then show "path_join r ''boot'' \<noteq> path_join r ''usr''"
    and "path_join r ''usr'' \<noteq> path_join r ''boot''"
    by auto
qed

lemma boot_not_joined_usr [simp]: "''/boot'' \<noteq> path_join r ''usr''"
proof
  assume "''/boot'' = path_join r ''usr''"
  then have "last ''/boot'' = last (path_join r ''usr'')"
    by simp
  then show False
    by (simp add: path_join_last)
qed

lemma usr_not_joined_boot [simp]: "''/usr'' \<noteq> path_join r ''boot''"
proof
  assume "''/usr'' = path_join r ''boot''"
  then have "last ''/usr'' = last (path_join r ''boot'')"
    by simp
  then show False
    by (simp add: path_join_last)
qed













section \<open>Running a command\<close>








text \<open>
  The child that writes \<open>ok\<close> and then the two bytes of the last character: the result
  and the monitor have the three code points.
\<close>

subsection \<open>The two concrete children\<close>













end
